theory Spec2Isabelle
  imports Main
begin

section \<open>Values, documents and events\<close>

text \<open>
  The repository holds three Cloud Functions samples (\<^verbatim>\<open>retries/index.js\<close>,
  \<^verbatim>\<open>idempotency/index.js\<close>, \<^verbatim>\<open>order-processing/index.js\<close>). Their functions are
  promise chains over three kinds of outside world: the Cloud Firestore database, HTTP
  services reached with \<^verbatim>\<open>request\<close>, and the console. The model threads a \<open>world\<close>
  (database plus the trace of effects issued so far) through every function and returns
  a rejected promise or a thrown exception as the left summand of the result.
\<close>

text \<open>The values \<^verbatim>\<open>JSON.parse\<close> can return. No arithmetic is done on numbers.\<close>

datatype json =
    JNull
  | JBool bool
  | JNum int
  | JStr string
  | JArr "json list"
  | JObj "(string \<times> json) list"

text \<open>
  A document of the \<^verbatim>\<open>sentEmails\<close> collection. The code writes two shapes only,
  \<^verbatim>\<open>{sent: true}\<close> and \<^verbatim>\<open>{lease: Date}\<close>; a field that is absent reads as
  \<^verbatim>\<open>undefined\<close>, here \<open>None\<close>. Dates are milliseconds since the epoch.
\<close>

record emailDoc =
  sent :: "bool option"
  lease :: "int option"

text \<open>The order object of \<^verbatim>\<open>order-processing/index.js\<close>; \<open>cook\<close> is set later.\<close>

record order =
  orderId :: string
  orderTimestamp :: string
  meal :: string
  cook :: "string option"

text \<open>
  The Pub/Sub event: \<^verbatim>\<open>event.context.eventId\<close>, \<^verbatim>\<open>event.context.timestamp\<close> and
  \<^verbatim>\<open>event.data.data\<close> (the base64 body, which may be missing).
\<close>

record event =
  eventId :: string
  timestamp :: string
  msgData :: "string option"

text \<open>
  What the libraries and the process environment provide:
  \<^verbatim>\<open>Buffer.from(s, 'base64').toString()\<close>, \<^verbatim>\<open>JSON.parse\<close> (\<open>None\<close> when it throws
  a SyntaxError), the values Firestore accepts as the data of a document (\<^verbatim>\<open>set\<close> and
  \<^verbatim>\<open>add\<close> throw on any other argument), \<^verbatim>\<open>process.env.FUNCTION_REGION\<close> and
  \<^verbatim>\<open>process.env.GCP_PROJECT\<close>.
\<close>

record runtime =
  base64ToString :: "string \<Rightarrow> string"
  jsonParse :: "string \<Rightarrow> json option"
  validDocument :: "json \<Rightarrow> bool"
  region :: string
  project :: string

text \<open>
  What one execution of a function receives from outside: the answers of the HTTP
  services (\<open>None\<close> for a non-2xx status; the text sent by flaky and by prepareMeal,
  the cook in the \<^verbatim>\<open>{cook: ...}\<close> object sent by chooseCook), the two readings of
  \<^verbatim>\<open>new Date()\<close> made by \<^verbatim>\<open>shouldSendWithLease\<close> (the first in the comparison, the
  second in the new lease), and the identifier Firestore generates for \<^verbatim>\<open>add\<close>.
\<close>

record env =
  flakyResp :: "string option"
  chooseCookResp :: "string option"
  prepareMealResp :: "string option"
  nowCheck :: int
  nowLease :: int
  autoId :: string

section \<open>Firestore, effects and promises\<close>

record firestore =
  contents :: "string \<rightharpoonup> json"
  sentEmails :: "string \<rightharpoonup> emailDoc"
  orders :: "string \<Rightarrow> string \<rightharpoonup> order"

text \<open>
  A write names its document: \<open>ContentDoc i c\<close> is \<^verbatim>\<open>contents/i\<close>, \<open>EmailDoc i d\<close> is
  \<^verbatim>\<open>sentEmails/i\<close>, \<open>OrderDoc c i o\<close> is document \<open>i\<close> of the order collection \<open>c\<close>.
  \<^verbatim>\<open>set\<close> without merge options replaces the whole document.
\<close>

datatype docWrite =
    ContentDoc string json
  | EmailDoc string emailDoc
  | OrderDoc string string order

fun applyWrite :: "docWrite \<Rightarrow> firestore \<Rightarrow> firestore" where
  "applyWrite (ContentDoc i c) d = d\<lparr>contents := (contents d)(i \<mapsto> c)\<rparr>"
| "applyWrite (EmailDoc i e) d = d\<lparr>sentEmails := (sentEmails d)(i \<mapsto> e)\<rparr>"
| "applyWrite (OrderDoc c i ord) d = d\<lparr>orders := (orders d)(c := (orders d c)(i \<mapsto> ord))\<rparr>"

fun docExists :: "docWrite \<Rightarrow> firestore \<Rightarrow> bool" where
  "docExists (ContentDoc i c) d = (contents d i \<noteq> None)"
| "docExists (EmailDoc i e) d = (sentEmails d i \<noteq> None)"
| "docExists (OrderDoc c i ord) d = (orders d c i \<noteq> None)"

datatype body = NoBody | Json json | OrderBody order | IdBody string

datatype logmsg =
    SendingEmail "json option"
  | ReceivedOrder string
  | AssigningCook "string option"

text \<open>
  The effects a function issues, in order. \<open>Log (SendingEmail t)\<close> is the line
  \<^verbatim>\<open>console.log(`Sending email with text ${content.text}`)\<close>, which stands for the
  email itself in the sample (the SendGrid call is commented out next to it).
\<close>

datatype effect =
    Wrote docWrite
  | Request string string body
  | Log logmsg

record world =
  db :: firestore
  trace :: "effect list"

datatype reason =
    LeaseAlreadyTaken
  | StatusCodeError
  | SyntaxError
  | TypeError
  | InvalidArgument
  | AlreadyExists

text \<open>\<open>Thrown\<close>: a synchronous exception of the function; \<open>Rejected\<close>: a rejected promise.\<close>

datatype error = Thrown reason | Rejected reason

type_synonym 'a promise = "world \<Rightarrow> (error + 'a) \<times> world"

definition resolve :: "'a \<Rightarrow> 'a promise" where
  "resolve v w = (Inr v, w)"

definition reject :: "reason \<Rightarrow> 'a promise" where
  "reject r w = (Inl (Rejected r), w)"

text \<open>\<^verbatim>\<open>p.then(f)\<close>: \<open>f\<close> runs on the value of \<open>p\<close>; a rejection skips it.\<close>

definition then_p :: "'a promise \<Rightarrow> ('a \<Rightarrow> 'b promise) \<Rightarrow> 'b promise" where
  "then_p p f w = (case p w of (Inl e, w') \<Rightarrow> (Inl e, w') | (Inr v, w') \<Rightarrow> f v w')"

definition emit :: "effect \<Rightarrow> world \<Rightarrow> world" where
  "emit e w = w\<lparr>trace := trace w @ [e]\<rparr>"

definition consoleLog :: "logmsg \<Rightarrow> unit promise" where
  "consoleLog m w = (Inr (), emit (Log m) w)"

definition commit :: "docWrite \<Rightarrow> world \<Rightarrow> world" where
  "commit x w = emit (Wrote x) (w\<lparr>db := applyWrite x (db w)\<rparr>)"

text \<open>\<^verbatim>\<open>ref.set(data)\<close>: creates or overwrites the document.\<close>

definition docSet :: "docWrite \<Rightarrow> unit promise" where
  "docSet x w = (Inr (), commit x w)"

text \<open>
  \<^verbatim>\<open>collection.add(data)\<close>: creates the document under the generated identifier; the
  creation is rejected when that document already exists.
\<close>

definition docAdd :: "docWrite \<Rightarrow> unit promise" where
  "docAdd x w = (if docExists x (db w) then (Inl (Rejected AlreadyExists), w)
                 else (Inr (), commit x w))"

text \<open>
  \<^verbatim>\<open>db.runTransaction(f)\<close>: \<open>f\<close> reads the database and returns its result with the
  lines it logged and the writes it buffered by \<^verbatim>\<open>transaction.set\<close>. The lines are
  on the console whatever happens; the writes are applied when \<open>f\<close> resolves and
  dropped when it rejects. The transaction runs as one atomic step.
\<close>

definition runTransaction ::
  "(firestore \<Rightarrow> (reason + 'a) \<times> logmsg list \<times> docWrite list) \<Rightarrow> 'a promise" where
  "runTransaction f w =
     (case f (db w) of
        (Inl r, logs, xs) \<Rightarrow> (Inl (Rejected r), fold emit (map Log logs) w)
      | (Inr v, logs, xs) \<Rightarrow> (Inr v, fold commit xs (fold emit (map Log logs) w)))"

text \<open>
  \<^verbatim>\<open>request({method, uri, body, json: true})\<close>: issues the call; resolves with the
  response body, or rejects when the service answered with a non-2xx status.
\<close>

definition request :: "string \<Rightarrow> string \<Rightarrow> body \<Rightarrow> 'r option \<Rightarrow> 'r promise" where
  "request method uri b resp w =
     (case resp of
        None \<Rightarrow> (Inl (Rejected StatusCodeError), emit (Request method uri b) w)
      | Some r \<Rightarrow> (Inr r, emit (Request method uri b) w))"

definition functionsUri :: "runtime \<Rightarrow> string \<Rightarrow> string" where
  "functionsUri rt path =
     ''https://'' @ region rt @ ''-'' @ project rt @ ''.cloudfunctions.net'' @ path"

section \<open>Reading the message body\<close>

text \<open>JavaScript's \<^verbatim>\<open>a || b\<close> on strings: the empty string is falsy.\<close>

definition orElse :: "string \<Rightarrow> string \<Rightarrow> string" where
  "orElse a b = (if a = [] then b else a)"

text \<open>
  \<^verbatim>\<open>JSON.parse(Buffer.from(message.data || '', 'base64').toString() || '{}')\<close>, the
  first statement of every function of \<^verbatim>\<open>idempotency/index.js\<close> and of
  \<^verbatim>\<open>pubSubFunction\<close>.
\<close>

definition parseContent :: "runtime \<Rightarrow> event \<Rightarrow> error + json" where
  "parseContent rt ev =
     (let raw = (case msgData ev of None \<Rightarrow> [] | Some s \<Rightarrow> orElse s []);
          str = orElse (base64ToString rt raw) ''{}''
      in case jsonParse rt str of
           None \<Rightarrow> Inl (Thrown SyntaxError)
         | Some c \<Rightarrow> Inr c)"

text \<open>
  \<^verbatim>\<open>content.text\<close>: a TypeError on \<^verbatim>\<open>null\<close>, the member of an object, and
  \<^verbatim>\<open>undefined\<close> on every other value.
\<close>

fun textOf :: "json \<Rightarrow> reason + json option" where
  "textOf JNull = Inl TypeError"
| "textOf (JObj kvs) = Inr (map_of kvs ''text'')"
| "textOf _ = Inr None"

text \<open>
  \<^verbatim>\<open>message.data ? Buffer.from(message.data, 'base64').toString() : ''\<close>, the meal of
  an order.
\<close>

definition mealOf :: "runtime \<Rightarrow> event \<Rightarrow> string" where
  "mealOf rt ev =
     (case msgData ev of
        None \<Rightarrow> []
      | Some s \<Rightarrow> if s = [] then [] else base64ToString rt s)"

section \<open>The ledger of \<^verbatim>\<open>idempotency/index.js\<close>\<close>

definition sentDoc :: emailDoc where
  "sentDoc = \<lparr>sent = Some True, lease = None\<rparr>"

definition leaseDoc :: "int \<Rightarrow> emailDoc" where
  "leaseDoc t = \<lparr>sent = None, lease = Some t\<rparr>"

text \<open>\<^verbatim>\<open>emailDoc.exists && emailDoc.data().sent\<close>\<close>

definition existsAndSent :: "emailDoc option \<Rightarrow> bool" where
  "existsAndSent snap = (case snap of None \<Rightarrow> False | Some d \<Rightarrow> sent d = Some True)"

text \<open>
  \<^verbatim>\<open>emailDoc.exists && new Date() < emailDoc.data().lease\<close>: a comparison with
  \<^verbatim>\<open>undefined\<close> is false.
\<close>

definition existsAndLeased :: "int \<Rightarrow> emailDoc option \<Rightarrow> bool" where
  "existsAndLeased now snap =
     (case snap of
        None \<Rightarrow> False
      | Some d \<Rightarrow> (case lease d of None \<Rightarrow> False | Some l \<Rightarrow> now < l))"

text \<open>\<^verbatim>\<open>shouldSend\<close>: \<^verbatim>\<open>!emailDoc.exists || !emailDoc.data().sent\<close>, a plain read.\<close>

definition shouldSend :: "string \<Rightarrow> bool promise" where
  "shouldSend emailRef w = (Inr (\<not> existsAndSent (sentEmails (db w) emailRef)), w)"

text \<open>\<^verbatim>\<open>markSent\<close>: \<^verbatim>\<open>emailRef.set({sent: true})\<close>\<close>

definition markSent :: "string \<Rightarrow> unit promise" where
  "markSent emailRef = docSet (EmailDoc emailRef sentDoc)"

definition leaseTime :: int where
  "leaseTime = 60 * 1000"

text \<open>The function given to \<^verbatim>\<open>db.runTransaction\<close> by \<^verbatim>\<open>shouldSendWithLease\<close>.\<close>

definition leaseTransaction ::
  "int \<Rightarrow> int \<Rightarrow> string \<Rightarrow> firestore \<Rightarrow> (reason + bool) \<times> logmsg list \<times> docWrite list" where
  "leaseTransaction now1 now2 emailRef d =
     (let emailDoc = sentEmails d emailRef in
      if existsAndSent emailDoc then (Inr False, [], [])
      else if existsAndLeased now1 emailDoc then (Inl LeaseAlreadyTaken, [], [])
      else (Inr True, [], [EmailDoc emailRef (leaseDoc (now2 + leaseTime))]))"

definition shouldSendWithLease :: "int \<Rightarrow> int \<Rightarrow> string \<Rightarrow> bool promise" where
  "shouldSendWithLease now1 now2 emailRef = runTransaction (leaseTransaction now1 now2 emailRef)"

section \<open>The functions of \<^verbatim>\<open>idempotency/index.js\<close> and \<^verbatim>\<open>retries/index.js\<close>\<close>

definition nonIdempotentFirestoreFunction ::
  "runtime \<Rightarrow> env \<Rightarrow> event \<Rightarrow> string promise" where
  "nonIdempotentFirestoreFunction rt e ev w =
     (case parseContent rt ev of
        Inl err \<Rightarrow> (Inl err, w)
      | Inr content \<Rightarrow>
          if \<not> validDocument rt content then (Inl (Thrown InvalidArgument), w)
          else
            then_p (docAdd (ContentDoc (autoId e) content))
              (\<lambda>_. request ''POST'' (functionsUri rt ''/flaky'') (Json content) (flakyResp e)) w)"

definition idempotentFirestoreFunction ::
  "runtime \<Rightarrow> env \<Rightarrow> event \<Rightarrow> string promise" where
  "idempotentFirestoreFunction rt e ev w =
     (case parseContent rt ev of
        Inl err \<Rightarrow> (Inl err, w)
      | Inr content \<Rightarrow>
          if \<not> validDocument rt content then (Inl (Thrown InvalidArgument), w)
          else
            then_p (docSet (ContentDoc (eventId ev) content))
              (\<lambda>_. request ''POST'' (functionsUri rt (''/flaky/'' @ eventId ev)) (Json content)
                     (flakyResp e)) w)"

text \<open>Here \<^verbatim>\<open>content.text\<close> is read outside any promise: a TypeError is thrown.\<close>

definition nonIdempotentEmailFunction ::
  "runtime \<Rightarrow> env \<Rightarrow> event \<Rightarrow> string promise" where
  "nonIdempotentEmailFunction rt e ev w =
     (case parseContent rt ev of
        Inl err \<Rightarrow> (Inl err, w)
      | Inr content \<Rightarrow>
          (case textOf content of
             Inl r \<Rightarrow> (Inl (Thrown r), w)
           | Inr t \<Rightarrow>
               then_p (consoleLog (SendingEmail t))
                 (\<lambda>_. request ''POST'' (functionsUri rt ''/flaky'') (Json content) (flakyResp e)) w))"

text \<open>
  The body of \<^verbatim>\<open>if (send) {...}\<close> in the two functions below: the log line, then
  \<^verbatim>\<open>markSent\<close>. Inside a \<^verbatim>\<open>then\<close> callback an exception rejects the promise.
\<close>

definition sendAndMark :: "json \<Rightarrow> string \<Rightarrow> unit promise" where
  "sendAndMark content emailRef =
     (case textOf content of
        Inl r \<Rightarrow> reject r
      | Inr t \<Rightarrow> then_p (consoleLog (SendingEmail t)) (\<lambda>_. markSent emailRef))"

definition almostIdempotentEmailFunction ::
  "runtime \<Rightarrow> env \<Rightarrow> event \<Rightarrow> string promise" where
  "almostIdempotentEmailFunction rt e ev w =
     (case parseContent rt ev of
        Inl err \<Rightarrow> (Inl err, w)
      | Inr content \<Rightarrow>
          (let emailRef = eventId ev in
           then_p
             (then_p (shouldSend emailRef)
                (\<lambda>send. if send then sendAndMark content emailRef else resolve ()))
             (\<lambda>_. request ''POST'' (functionsUri rt (''/flaky/'' @ eventId ev)) (Json content)
                    (flakyResp e)) w))"

definition idempotentEmailFunction ::
  "runtime \<Rightarrow> env \<Rightarrow> event \<Rightarrow> string promise" where
  "idempotentEmailFunction rt e ev w =
     (case parseContent rt ev of
        Inl err \<Rightarrow> (Inl err, w)
      | Inr content \<Rightarrow>
          (let emailRef = eventId ev in
           then_p
             (then_p (shouldSendWithLease (nowCheck e) (nowLease e) emailRef)
                (\<lambda>send. if send then sendAndMark content emailRef else resolve ()))
             (\<lambda>_. request ''POST'' (functionsUri rt (''/flaky/'' @ eventId ev)) (Json content)
                    (flakyResp e)) w))"

text \<open>\<^verbatim>\<open>pubSubFunction\<close> of \<^verbatim>\<open>retries/index.js\<close>.\<close>

definition pubSubFunction :: "runtime \<Rightarrow> env \<Rightarrow> event \<Rightarrow> string promise" where
  "pubSubFunction rt e ev w =
     (case parseContent rt ev of
        Inl err \<Rightarrow> (Inl err, w)
      | Inr content \<Rightarrow>
          request ''POST'' (functionsUri rt ''/flaky'') (Json content) (flakyResp e) w)"

section \<open>The order pipeline of \<^verbatim>\<open>order-processing/index.js\<close>\<close>

definition newOrder :: "runtime \<Rightarrow> event \<Rightarrow> order" where
  "newOrder rt ev =
     \<lparr>orderId = eventId ev, orderTimestamp = timestamp ev, meal = mealOf rt ev, cook = None\<rparr>"

text \<open>
  The first callback assigns \<^verbatim>\<open>order.cook = res.cook\<close> and the second one posts the
  same object: the model hands the updated order from the one to the other.
\<close>

definition nonIdempotentProcessOrder ::
  "runtime \<Rightarrow> env \<Rightarrow> string \<Rightarrow> event \<Rightarrow> string promise" where
  "nonIdempotentProcessOrder rt e collection ev =
     (let ord = newOrder rt ev in
      then_p (consoleLog (ReceivedOrder (meal ord)))
        (\<lambda>_. then_p
           (then_p (request ''GET'' (functionsUri rt ''/chooseCook/'') NoBody (chooseCookResp e))
              (\<lambda>res. let ord' = ord\<lparr>cook := Some res\<rparr> in
                 then_p (consoleLog (AssigningCook (cook ord')))
                   (\<lambda>_. then_p (docAdd (OrderDoc collection (autoId e) ord'))
                      (\<lambda>_. resolve ord'))))
           (\<lambda>ord'. request ''POST'' (functionsUri rt ''/prepareMeal/'') (OrderBody ord')
                      (prepareMealResp e))))"

definition processOrder :: "runtime \<Rightarrow> env \<Rightarrow> event \<Rightarrow> string promise" where
  "processOrder rt e ev = nonIdempotentProcessOrder rt e ''incoming'' ev"

definition processOrderRetry :: "runtime \<Rightarrow> env \<Rightarrow> event \<Rightarrow> string promise" where
  "processOrderRetry rt e ev = nonIdempotentProcessOrder rt e ''incomingRetry'' ev"

text \<open>The function given to \<^verbatim>\<open>db.runTransaction\<close> by \<^verbatim>\<open>processOrderRetryIdempotent\<close>.\<close>

definition orderTransaction ::
  "order \<Rightarrow> string \<Rightarrow> firestore \<Rightarrow> (reason + unit) \<times> logmsg list \<times> docWrite list" where
  "orderTransaction ord res d =
     (let snapshot = orders d ''incomingRetryIdempotent'' (orderId ord) in
      if snapshot = None then
        (let ord' = ord\<lparr>cook := Some res\<rparr> in
         (Inr (), [AssigningCook (cook ord')],
          [OrderDoc ''incomingRetryIdempotent'' (orderId ord) ord']))
      else (Inr (), [], []))"

definition processOrderRetryIdempotent ::
  "runtime \<Rightarrow> env \<Rightarrow> event \<Rightarrow> string promise" where
  "processOrderRetryIdempotent rt e ev =
     (let ord = newOrder rt ev in
      then_p (consoleLog (ReceivedOrder (meal ord)))
        (\<lambda>_. then_p
           (then_p (request ''GET'' (functionsUri rt ''/chooseCook/'') NoBody (chooseCookResp e))
              (\<lambda>res. runTransaction (orderTransaction ord res)))
           (\<lambda>_. request ''POST'' (functionsUri rt ''/prepareMeal/'') (IdBody (orderId ord))
                  (prepareMealResp e))))"

section \<open>Sequences of ledger operations and of deliveries\<close>

text \<open>
  Firestore serialises the transactions on one document, so a set of concurrent
  executions is observed as a sequence of atomic steps. \<open>decideAll\<close> runs
  \<^verbatim>\<open>shouldSendWithLease\<close> for one identifier once per pair of clock readings.
\<close>

fun decideAll :: "string \<Rightarrow> (int \<times> int) list \<Rightarrow> world \<Rightarrow> (error + bool) list \<times> world" where
  "decideAll emailRef [] w = ([], w)"
| "decideAll emailRef ((now1, now2) # ts) w =
     (case shouldSendWithLease now1 now2 emailRef w of
        (r, w') \<Rightarrow> (case decideAll emailRef ts w' of (rs, w'') \<Rightarrow> (r # rs, w'')))"

text \<open>The three operations the code performs on \<^verbatim>\<open>sentEmails\<close>, on any identifier.\<close>

datatype ledgerOp =
    Decide string int int
  | Check string
  | Mark string

datatype ledgerResult =
    Decision "error + bool"
  | Checked "error + bool"
  | Marked "error + unit"

fun ledgerStep :: "ledgerOp \<Rightarrow> world \<Rightarrow> ledgerResult \<times> world" where
  "ledgerStep (Decide emailRef now1 now2) w =
     (case shouldSendWithLease now1 now2 emailRef w of (r, w') \<Rightarrow> (Decision r, w'))"
| "ledgerStep (Check emailRef) w =
     (case shouldSend emailRef w of (r, w') \<Rightarrow> (Checked r, w'))"
| "ledgerStep (Mark emailRef) w =
     (case markSent emailRef w of (r, w') \<Rightarrow> (Marked r, w'))"

fun ledgerRun :: "ledgerOp list \<Rightarrow> world \<Rightarrow> ledgerResult list \<times> world" where
  "ledgerRun [] w = ([], w)"
| "ledgerRun (x # xs) w =
     (case ledgerStep x w of
        (r, w') \<Rightarrow> (case ledgerRun xs w' of (rs, w'') \<Rightarrow> (r # rs, w'')))"

text \<open>Deliveries handled one after the other by \<^verbatim>\<open>processOrderRetryIdempotent\<close>.\<close>

fun deliveries :: "runtime \<Rightarrow> (env \<times> event) list \<Rightarrow> world \<Rightarrow> world" where
  "deliveries rt [] w = w"
| "deliveries rt ((e, ev) # xs) w = deliveries rt xs (snd (processOrderRetryIdempotent rt e ev w))"

definition isOrderWrite :: "string \<Rightarrow> string \<Rightarrow> effect \<Rightarrow> bool" where
  "isOrderWrite c i ef = (case ef of Wrote (OrderDoc c' i' x) \<Rightarrow> c' = c \<and> i' = i | _ \<Rightarrow> False)"

text \<open>A function throws when its result is a synchronous exception.\<close>

definition throws :: "(error + 'a) \<times> world \<Rightarrow> bool" where
  "throws res = (case fst res of Inl (Thrown r) \<Rightarrow> True | _ \<Rightarrow> False)"

text \<open>
  The world after the first two effects of \<^verbatim>\<open>processOrderRetryIdempotent\<close>: the log
  line and the call of chooseCook.
\<close>

definition afterChooseCook :: "runtime \<Rightarrow> event \<Rightarrow> world \<Rightarrow> world" where
  "afterChooseCook rt ev w =
     emit (Request ''GET'' (functionsUri rt ''/chooseCook/'') NoBody)
       (emit (Log (ReceivedOrder (mealOf rt ev))) w)"

text \<open>The message body is missing, or it decodes to the empty string.\<close>

definition emptyBody :: "runtime \<Rightarrow> event \<Rightarrow> bool" where
  "emptyBody rt ev = (case msgData ev of None \<Rightarrow> True | Some s \<Rightarrow> base64ToString rt s = [])"

section \<open>Concrete databases, events and environments\<close>

definition emptyDb :: firestore where
  "emptyDb = \<lparr>contents = Map.empty, sentEmails = Map.empty, orders = (\<lambda>c. Map.empty)\<rparr>"

definition emptyWorld :: world where
  "emptyWorld = \<lparr>db = emptyDb, trace = []\<rparr>"

definition emailWorld :: "string \<Rightarrow> emailDoc \<Rightarrow> world" where
  "emailWorld i d = \<lparr>db = emptyDb\<lparr>sentEmails := [i \<mapsto> d]\<rparr>, trace = []\<rparr>"

definition contentWorld :: "string \<Rightarrow> json \<Rightarrow> world" where
  "contentWorld i c = \<lparr>db = emptyDb\<lparr>contents := [i \<mapsto> c]\<rparr>, trace = []\<rparr>"

definition orderWorld :: "string \<Rightarrow> order \<Rightarrow> world" where
  "orderWorld i ord =
     \<lparr>db = emptyDb\<lparr>orders := (\<lambda>c. if c = ''incomingRetryIdempotent'' then [i \<mapsto> ord]
                                     else Map.empty)\<rparr>,
      trace = []\<rparr>"

definition storedOrder :: order where
  "storedOrder =
     \<lparr>orderId = ''e1'', orderTimestamp = ''2018-06-01T12:00:00Z'', meal = ''pizza'',
      cook = Some ''John''\<rparr>"

text \<open>
  A runtime that decodes two bodies, \<^verbatim>\<open>e30=\<close> (the text \<^verbatim>\<open>{}\<close>) and \<^verbatim>\<open>cGl6emE=\<close>
  (the text \<^verbatim>\<open>pizza\<close>), decodes everything else to the empty string, parses the
  text \<^verbatim>\<open>{}\<close>, and accepts objects as documents.
\<close>

definition demoRuntime :: runtime where
  "demoRuntime =
     \<lparr>base64ToString = (\<lambda>s. if s = ''e30='' then ''{}''
                              else if s = ''cGl6emE='' then ''pizza'' else []),
      jsonParse = (\<lambda>s. if s = ''{}'' then Some (JObj []) else None),
      validDocument = (\<lambda>c. case c of JObj kvs \<Rightarrow> True | _ \<Rightarrow> False),
      region = ''us-central1'',
      project = ''demo''\<rparr>"

definition demoEnv :: env where
  "demoEnv =
     \<lparr>flakyResp = Some ''Flaky service succeeded!'',
      chooseCookResp = Some ''Linda'',
      prepareMealResp = Some ''Cook successfully notified to prepare a meal.'',
      nowCheck = 1000, nowLease = 1000, autoId = ''auto1''\<rparr>"

definition demoEvent :: "string option \<Rightarrow> event" where
  "demoEvent b = \<lparr>eventId = ''e1'', timestamp = ''2018-06-01T12:00:00Z'', msgData = b\<rparr>"

section \<open>Effects and promises\<close>

lemma request_eq:
  "request m u b resp w =
     (case resp of None \<Rightarrow> Inl (Rejected StatusCodeError) | Some r \<Rightarrow> Inr r,
      emit (Request m u b) w)"
  by (simp add: request_def split: option.splits)

lemma db_emit: "db (emit ef w) = db w"
  by (simp add: emit_def)

lemma trace_emit: "trace (emit ef w) = trace w @ [ef]"
  by (simp add: emit_def)

lemma trace_commit: "trace (commit x w) = trace w @ [Wrote x]"
  by (simp add: commit_def emit_def)

lemma sentEmails_commit_EmailDoc:
  "sentEmails (db (commit (EmailDoc i d) w)) = (sentEmails (db w))(i \<mapsto> d)"
  by (simp add: commit_def emit_def)

lemma orders_commit_OrderDoc:
  "orders (db (commit (OrderDoc c i x) w)) = (orders (db w))(c := (orders (db w) c)(i \<mapsto> x))"
  by (simp add: commit_def emit_def)

lemma contents_commit_ContentDoc:
  "db (commit (ContentDoc i c) w) = (db w)\<lparr>contents := (contents (db w))(i \<mapsto> c)\<rparr>"
  by (simp add: commit_def emit_def)

lemma then_p_no_throw:
  assumes "\<not> throws (p w)" and "\<And>v w1. \<not> throws (f v w1)"
  shows "\<not> throws (then_p p f w)"
proof (cases "p w")
  case (Pair r w1)
  show ?thesis
  proof (cases r)
    case (Inl err)
    with Pair assms(1) show ?thesis by (simp add: then_p_def throws_def)
  next
    case (Inr v)
    with Pair assms(2) [of v w1] show ?thesis by (simp add: then_p_def)
  qed
qed

lemma request_no_throw: "\<not> throws (request m u b resp w)"
  by (simp add: request_def throws_def split: option.splits)

lemma docAdd_no_throw: "\<not> throws (docAdd x w)"
  by (simp add: docAdd_def throws_def)

lemma docSet_no_throw: "\<not> throws (docSet x w)"
  by (simp add: docSet_def throws_def)

lemma consoleLog_no_throw: "\<not> throws (consoleLog m w)"
  by (simp add: consoleLog_def throws_def)

lemma resolve_no_throw: "\<not> throws (resolve v w)"
  by (simp add: resolve_def throws_def)

lemma reject_no_throw: "\<not> throws (reject r w)"
  by (simp add: reject_def throws_def)

lemma runTransaction_no_throw: "\<not> throws (runTransaction f w)"
  by (cases "f (db w)") (auto simp: runTransaction_def throws_def split: sum.splits)

lemma shouldSend_no_throw: "\<not> throws (shouldSend r w)"
  by (simp add: shouldSend_def throws_def)

lemma sendAndMark_no_throw: "\<not> throws (sendAndMark c r w)"
  by (cases "textOf c")
     (simp_all add: sendAndMark_def reject_no_throw then_p_no_throw consoleLog_no_throw
        markSent_def docSet_no_throw)

section \<open>The decision of \<^verbatim>\<open>shouldSendWithLease\<close>\<close>

lemma shouldSendWithLease_done:
  "existsAndSent (sentEmails (db w) emailRef) \<Longrightarrow>
   shouldSendWithLease now1 now2 emailRef w = (Inr False, w)"
  by (simp add: shouldSendWithLease_def runTransaction_def leaseTransaction_def)

lemma shouldSendWithLease_held:
  "\<not> existsAndSent (sentEmails (db w) emailRef) \<Longrightarrow>
   existsAndLeased now1 (sentEmails (db w) emailRef) \<Longrightarrow>
   shouldSendWithLease now1 now2 emailRef w = (Inl (Rejected LeaseAlreadyTaken), w)"
  by (simp add: shouldSendWithLease_def runTransaction_def leaseTransaction_def)

lemma shouldSendWithLease_take:
  "\<not> existsAndSent (sentEmails (db w) emailRef) \<Longrightarrow>
   \<not> existsAndLeased now1 (sentEmails (db w) emailRef) \<Longrightarrow>
   shouldSendWithLease now1 now2 emailRef w =
     (Inr True, commit (EmailDoc emailRef (leaseDoc (now2 + leaseTime))) w)"
  by (simp add: shouldSendWithLease_def runTransaction_def leaseTransaction_def)

text \<open>
  C1. \<^verbatim>\<open>shouldSendWithLease\<close>, run as one transaction for the identifier \<open>emailRef\<close>
  with the clock reading \<open>now1\<close> in its comparison and \<open>now2\<close> in the lease it writes
  (the claim's \<open>now\<close> is the case \<open>now1 = now2\<close>) and the lease duration \<open>leaseTime\<close>:
  with no record it writes \<^verbatim>\<open>{lease: now2 + leaseTime}\<close> and returns true; with a record
  marked sent it returns false and writes nothing; with an unsent record whose lease is
  later than \<open>now1\<close> it rejects and writes nothing; with an unsent record whose lease is
  at or before \<open>now1\<close> it writes the new lease \<open>now2 + leaseTime\<close> and returns true.
\<close>

theorem shouldSendWithLease_contract:
  "(sentEmails (db w) emailRef = None \<longrightarrow>
      shouldSendWithLease now1 now2 emailRef w =
        (Inr True, commit (EmailDoc emailRef (leaseDoc (now2 + leaseTime))) w))
   \<and> (\<forall>d. sentEmails (db w) emailRef = Some d \<and> sent d = Some True \<longrightarrow>
      shouldSendWithLease now1 now2 emailRef w = (Inr False, w))
   \<and> (\<forall>d l. sentEmails (db w) emailRef = Some d \<and> sent d \<noteq> Some True
         \<and> lease d = Some l \<and> now1 < l \<longrightarrow>
      shouldSendWithLease now1 now2 emailRef w = (Inl (Rejected LeaseAlreadyTaken), w))
   \<and> (\<forall>d l. sentEmails (db w) emailRef = Some d \<and> sent d \<noteq> Some True
         \<and> lease d = Some l \<and> l \<le> now1 \<longrightarrow>
      shouldSendWithLease now1 now2 emailRef w =
        (Inr True, commit (EmailDoc emailRef (leaseDoc (now2 + leaseTime))) w))
   \<and> sentEmails (db (commit (EmailDoc emailRef (leaseDoc (now2 + leaseTime))) w)) emailRef
       = Some \<lparr>sent = None, lease = Some (now2 + leaseTime)\<rparr>"
proof (intro conjI allI impI)
  assume "sentEmails (db w) emailRef = None"
  then show "shouldSendWithLease now1 now2 emailRef w =
        (Inr True, commit (EmailDoc emailRef (leaseDoc (now2 + leaseTime))) w)"
    by (simp add: shouldSendWithLease_take existsAndSent_def existsAndLeased_def)
next
  fix d assume "sentEmails (db w) emailRef = Some d \<and> sent d = Some True"
  then show "shouldSendWithLease now1 now2 emailRef w = (Inr False, w)"
    by (simp add: shouldSendWithLease_done existsAndSent_def)
next
  fix d l
  assume "sentEmails (db w) emailRef = Some d \<and> sent d \<noteq> Some True
         \<and> lease d = Some l \<and> now1 < l"
  then show "shouldSendWithLease now1 now2 emailRef w = (Inl (Rejected LeaseAlreadyTaken), w)"
    by (simp add: shouldSendWithLease_held existsAndSent_def existsAndLeased_def)
next
  fix d l
  assume "sentEmails (db w) emailRef = Some d \<and> sent d \<noteq> Some True
         \<and> lease d = Some l \<and> l \<le> now1"
  then show "shouldSendWithLease now1 now2 emailRef w =
        (Inr True, commit (EmailDoc emailRef (leaseDoc (now2 + leaseTime))) w)"
    by (simp add: shouldSendWithLease_take existsAndSent_def existsAndLeased_def)
next
  show "sentEmails (db (commit (EmailDoc emailRef (leaseDoc (now2 + leaseTime))) w)) emailRef
       = Some \<lparr>sent = None, lease = Some (now2 + leaseTime)\<rparr>"
    by (simp add: sentEmails_commit_EmailDoc leaseDoc_def)
qed

theorem shouldSendWithLease_contract_witness:
  "shouldSendWithLease 1000 1000 ''e1'' emptyWorld =
     (Inr True, commit (EmailDoc ''e1'' (leaseDoc 61000)) emptyWorld)
   \<and> shouldSendWithLease 1000 1000 ''e1'' (emailWorld ''e1'' sentDoc) =
     (Inr False, emailWorld ''e1'' sentDoc)
   \<and> shouldSendWithLease 1000 1000 ''e1'' (emailWorld ''e1'' (leaseDoc 1001)) =
     (Inl (Rejected LeaseAlreadyTaken), emailWorld ''e1'' (leaseDoc 1001))
   \<and> shouldSendWithLease 1000 1000 ''e1'' (emailWorld ''e1'' (leaseDoc 999)) =
     (Inr True, commit (EmailDoc ''e1'' (leaseDoc 61000)) (emailWorld ''e1'' (leaseDoc 999)))"
  using shouldSendWithLease_contract [of emptyWorld "''e1''" 1000 1000]
    shouldSendWithLease_contract [of "emailWorld ''e1'' sentDoc" "''e1''" 1000 1000]
    shouldSendWithLease_contract [of "emailWorld ''e1'' (leaseDoc 1001)" "''e1''" 1000 1000]
    shouldSendWithLease_contract [of "emailWorld ''e1'' (leaseDoc 999)" "''e1''" 1000 1000]
  by (simp add: emptyWorld_def emailWorld_def emptyDb_def sentDoc_def leaseDoc_def leaseTime_def)

text \<open>
  C7. For a record that holds a lease \<open>l\<close> and is not marked sent, a call whose clock
  reads exactly \<open>l\<close> takes the lease again and returns true; the call rejects with
  "Lease already taken" exactly when its clock reads strictly less than \<open>l\<close>.
\<close>

theorem lease_expires_at_boundary:
  assumes "sentEmails (db w) emailRef = Some d" and "sent d \<noteq> Some True" and "lease d = Some l"
  shows "shouldSendWithLease l now2 emailRef w =
           (Inr True, commit (EmailDoc emailRef (leaseDoc (now2 + leaseTime))) w)
         \<and> (\<forall>now1. (shouldSendWithLease now1 now2 emailRef w
                       = (Inl (Rejected LeaseAlreadyTaken), w)) = (now1 < l))"
proof (intro conjI allI)
  show "shouldSendWithLease l now2 emailRef w =
           (Inr True, commit (EmailDoc emailRef (leaseDoc (now2 + leaseTime))) w)"
    using assms by (simp add: shouldSendWithLease_take existsAndSent_def existsAndLeased_def)
next
  fix now1
  show "(shouldSendWithLease now1 now2 emailRef w = (Inl (Rejected LeaseAlreadyTaken), w))
          = (now1 < l)"
  proof (cases "now1 < l")
    case True
    with assms show ?thesis
      by (simp add: shouldSendWithLease_held existsAndSent_def existsAndLeased_def)
  next
    case False
    with assms show ?thesis
      by (simp add: shouldSendWithLease_take existsAndSent_def existsAndLeased_def)
  qed
qed

theorem lease_expires_at_boundary_witness:
  "shouldSendWithLease 5000 5000 ''e1'' (emailWorld ''e1'' (leaseDoc 5000)) =
     (Inr True, commit (EmailDoc ''e1'' (leaseDoc 65000)) (emailWorld ''e1'' (leaseDoc 5000)))
   \<and> shouldSendWithLease 4999 4999 ''e1'' (emailWorld ''e1'' (leaseDoc 5000)) =
     (Inl (Rejected LeaseAlreadyTaken), emailWorld ''e1'' (leaseDoc 5000))"
  using lease_expires_at_boundary [of "emailWorld ''e1'' (leaseDoc 5000)" "''e1''" "leaseDoc 5000" 5000 5000]
    lease_expires_at_boundary [of "emailWorld ''e1'' (leaseDoc 5000)" "''e1''" "leaseDoc 5000" 5000 4999]
  by (simp add: emailWorld_def emptyDb_def leaseDoc_def leaseTime_def)

lemma decideAll_append:
  "decideAll r (xs @ ys) w =
     (case decideAll r xs w of (rs1, w1) \<Rightarrow>
        (case decideAll r ys w1 of (rs2, w2) \<Rightarrow> (rs1 @ rs2, w2)))"
  by (induction xs arbitrary: w) (auto split: prod.splits)

lemma decideAll_length: "length (fst (decideAll r ts w)) = length ts"
proof (induction ts arbitrary: w)
  case Nil
  then show ?case by simp
next
  case (Cons t ts)
  obtain a b where t: "t = (a, b)" by (cases t)
  obtain r1 w1 where s: "shouldSendWithLease a b r w = (r1, w1)"
    by (cases "shouldSendWithLease a b r w")
  obtain rs w2 where d: "decideAll r ts w1 = (rs, w2)" by (cases "decideAll r ts w1")
  from Cons.IH [of w1] d have "length rs = length ts" by simp
  with t s d show ?case by simp
qed

lemma shouldSendWithLease_outcomes:
  "fst (shouldSendWithLease now1 now2 r w) \<in>
     {Inr True, Inr False, Inl (Rejected LeaseAlreadyTaken)}"
  by (simp add: shouldSendWithLease_def runTransaction_def leaseTransaction_def Let_def)

lemma decideAll_outcomes:
  "x \<in> set (fst (decideAll r ts w)) \<Longrightarrow>
     x = Inr True \<or> x = Inr False \<or> x = Inl (Rejected LeaseAlreadyTaken)"
proof (induction ts arbitrary: w)
  case Nil
  then show ?case by simp
next
  case (Cons t ts)
  obtain a b where t: "t = (a, b)" by (cases t)
  obtain r1 w1 where s: "shouldSendWithLease a b r w = (r1, w1)" by (cases "shouldSendWithLease a b r w")
  obtain rs w2 where d: "decideAll r ts w1 = (rs, w2)" by (cases "decideAll r ts w1")
  from Cons.prems t s d have "x = r1 \<or> x \<in> set (fst (decideAll r ts w1))" by auto
  then show ?case
  proof
    assume "x = r1"
    with shouldSendWithLease_outcomes [of a b r w] s show ?thesis by auto
  next
    assume "x \<in> set (fst (decideAll r ts w1))"
    then show ?thesis by (rule Cons.IH)
  qed
qed

lemma shouldSendWithLease_true_lease:
  "shouldSendWithLease now1 now2 r w = (Inr True, w') \<Longrightarrow>
     sentEmails (db w') r = Some (leaseDoc (now2 + leaseTime))"
  by (auto simp: shouldSendWithLease_def runTransaction_def leaseTransaction_def Let_def
        sentEmails_commit_EmailDoc split: if_splits)

lemma decideAll_held:
  "sentEmails (db w) r = Some (leaseDoc E) \<Longrightarrow> \<forall>t \<in> set ts. fst t < E \<Longrightarrow>
     decideAll r ts w = (replicate (length ts) (Inl (Rejected LeaseAlreadyTaken)), w)"
proof (induction ts)
  case Nil
  then show ?case by simp
next
  case (Cons t ts)
  obtain a b where t: "t = (a, b)" by (cases t)
  from Cons.prems t have "a < E" by simp
  with Cons.prems(1) have "shouldSendWithLease a b r w = (Inl (Rejected LeaseAlreadyTaken), w)"
    by (simp add: shouldSendWithLease_held existsAndSent_def existsAndLeased_def leaseDoc_def)
  with Cons t show ?case by simp
qed

text \<open>
  C2. In a sequence of \<^verbatim>\<open>shouldSendWithLease\<close> transactions for one identifier, with
  no \<^verbatim>\<open>markSent\<close> in between, let call \<open>k\<close> be the first that returns true. If every
  call of the sequence reads a clock earlier than the lease call \<open>k\<close> wrote, then every
  other call rejects with "Lease already taken" or returns false, and exactly one call
  of the sequence returns true.
\<close>

theorem one_ShouldRun_per_lease_window:
  assumes run: "decideAll emailRef ts w = (rs, w')"
    and k: "k < length ts"
    and first: "rs ! k = Inr True" "\<forall>j<k. rs ! j \<noteq> Inr True"
    and window: "\<forall>j<length ts. fst (ts ! j) < snd (ts ! k) + leaseTime"
  shows "(\<forall>j<length ts. j \<noteq> k \<longrightarrow>
            rs ! j = Inl (Rejected LeaseAlreadyTaken) \<or> rs ! j = Inr False)
         \<and> length (filter (\<lambda>r. r = Inr True) rs) = 1"
proof -
  obtain a b where tk: "ts ! k = (a, b)" by (cases "ts ! k")
  have split: "ts = take k ts @ (a, b) # drop (Suc k) ts"
    using id_take_nth_drop [OF k] unfolding tk .
  obtain rs1 w1 where pre: "decideAll emailRef (take k ts) w = (rs1, w1)"
    by (cases "decideAll emailRef (take k ts) w")
  obtain r wk where mid: "shouldSendWithLease a b emailRef w1 = (r, wk)"
    by (cases "shouldSendWithLease a b emailRef w1")
  obtain rs2 w2 where post: "decideAll emailRef (drop (Suc k) ts) wk = (rs2, w2)"
    by (cases "decideAll emailRef (drop (Suc k) ts) wk")
  have len1: "length rs1 = k"
    using decideAll_length [of emailRef "take k ts" w] pre k by simp
  have "decideAll emailRef (take k ts @ (a, b) # drop (Suc k) ts) w = (rs1 @ r # rs2, w2)"
    by (simp add: decideAll_append pre mid post)
  with run split have rs: "rs = rs1 @ r # rs2" by simp
  have "rs ! length rs1 = r" using rs by simp
  with first(1) len1 have r: "r = Inr True" by simp
  with mid have leased: "sentEmails (db wk) emailRef = Some (leaseDoc (b + leaseTime))"
    by (simp add: shouldSendWithLease_true_lease)
  have "\<forall>t \<in> set (drop (Suc k) ts). fst t < b + leaseTime"
  proof
    fix t assume "t \<in> set (drop (Suc k) ts)"
    then have "t \<in> set ts" by (rule in_set_dropD)
    then obtain j where "j < length ts" "ts ! j = t" by (auto simp: in_set_conv_nth)
    with window tk show "fst t < b + leaseTime" by auto
  qed
  with leased post have rs2: "rs2 = replicate (length (drop (Suc k) ts)) (Inl (Rejected LeaseAlreadyTaken))"
    by (simp add: decideAll_held)
  have rs1_no: "Inr True \<notin> set rs1"
  proof
    assume "Inr True \<in> set rs1"
    then obtain j where j: "j < length rs1" "rs1 ! j = Inr True" by (auto simp: in_set_conv_nth)
    with len1 rs have "j < k" "rs ! j = Inr True" by (simp_all add: nth_append)
    with first(2) show False by simp
  qed
  have rs1_other: "\<forall>x \<in> set rs1. x = Inl (Rejected LeaseAlreadyTaken) \<or> x = Inr False"
  proof
    fix x assume x: "x \<in> set rs1"
    with pre have "x \<in> set (fst (decideAll emailRef (take k ts) w))" by simp
    from decideAll_outcomes [OF this] x rs1_no
    show "x = Inl (Rejected LeaseAlreadyTaken) \<or> x = Inr False" by auto
  qed
  have lenrs: "length rs = length ts"
    using decideAll_length [of emailRef ts w] run by simp
  have others: "\<forall>j<length ts. j \<noteq> k \<longrightarrow>
            rs ! j = Inl (Rejected LeaseAlreadyTaken) \<or> rs ! j = Inr False"
  proof (intro allI impI)
    fix j assume j: "j < length ts" "j \<noteq> k"
    show "rs ! j = Inl (Rejected LeaseAlreadyTaken) \<or> rs ! j = Inr False"
    proof (cases "j < k")
      case True
      with len1 rs have "rs ! j = rs1 ! j" "rs1 ! j \<in> set rs1" by (simp_all add: nth_append)
      with rs1_other show ?thesis by auto
    next
      case False
      with j have jk: "k < j" by simp
      have "rs ! j = (r # rs2) ! (j - k)"
        using jk by (simp add: rs nth_append len1)
      also have "\<dots> = rs2 ! (j - Suc k)"
        using jk by (simp add: nth_Cons')
      also have "\<dots> = Inl (Rejected LeaseAlreadyTaken)"
        using j jk by (simp add: rs2)
      finally show ?thesis by simp
    qed
  qed
  have "filter (\<lambda>r. r = Inr True) rs1 = []"
    using rs1_no by (auto simp: filter_empty_conv)
  moreover have "filter (\<lambda>r. r = Inr True) rs2 = []"
    by (simp add: rs2)
  ultimately have "filter (\<lambda>r. r = Inr True) rs = [Inr True]"
    by (simp add: rs r)
  then have "length (filter (\<lambda>r. r = Inr True) rs) = 1" by simp
  with others show ?thesis by simp
qed

theorem one_ShouldRun_per_lease_window_witness:
  "decideAll ''e1'' [(1000, 1001), (1500, 1500), (61000, 61000)] emptyWorld =
     ([Inr True, Inl (Rejected LeaseAlreadyTaken), Inl (Rejected LeaseAlreadyTaken)],
      commit (EmailDoc ''e1'' (leaseDoc 61001)) emptyWorld)
   \<and> length (filter (\<lambda>r. r = Inr True)
        [Inr True, Inl (Rejected LeaseAlreadyTaken), Inl (Rejected LeaseAlreadyTaken) :: error + bool]) = 1"
proof -
  have run: "decideAll ''e1'' [(1000, 1001), (1500, 1500), (61000, 61000)] emptyWorld =
     ([Inr True, Inl (Rejected LeaseAlreadyTaken), Inl (Rejected LeaseAlreadyTaken)],
      commit (EmailDoc ''e1'' (leaseDoc 61001)) emptyWorld)"
    by (simp add: shouldSendWithLease_def runTransaction_def leaseTransaction_def
        existsAndSent_def existsAndLeased_def emptyWorld_def emptyDb_def leaseDoc_def
        leaseTime_def commit_def emit_def)
  have k: "(0::nat) < length [(1000, 1001), (1500, 1500), (61000::int, 61000::int)]" by simp
  have w: "\<forall>j<length [(1000, 1001), (1500, 1500), (61000::int, 61000::int)].
     fst ([(1000, 1001), (1500, 1500), (61000::int, 61000::int)] ! j)
       < snd ([(1000, 1001), (1500, 1500), (61000::int, 61000::int)] ! 0) + leaseTime"
    by (simp add: leaseTime_def nth_Cons split: nat.split)
  from one_ShouldRun_per_lease_window [OF run k _ _ w] run show ?thesis by simp
qed

lemma shouldSendWithLease_frame:
  "r' \<noteq> r \<Longrightarrow>
     sentEmails (db (snd (shouldSendWithLease now1 now2 r' w))) r = sentEmails (db w) r"
  by (simp add: shouldSendWithLease_def runTransaction_def leaseTransaction_def Let_def
      sentEmails_commit_EmailDoc)

lemma markSent_eq: "markSent r w = (Inr (), commit (EmailDoc r sentDoc) w)"
  by (simp add: markSent_def docSet_def)

lemma sentDoc_sent: "existsAndSent (Some sentDoc)"
  by (simp add: existsAndSent_def sentDoc_def)

lemma ledgerStep_keeps_done:
  assumes "sentEmails (db w) r = Some sentDoc"
  shows "sentEmails (db (snd (ledgerStep x w))) r = Some sentDoc"
proof (cases x)
  case (Decide r' now1 now2)
  show ?thesis
  proof (cases "r' = r")
    case True
    with assms Decide show ?thesis
      by (simp add: shouldSendWithLease_done sentDoc_sent)
  next
    case False
    with assms Decide shouldSendWithLease_frame [of r' r now1 now2 w] show ?thesis
      by (cases "shouldSendWithLease now1 now2 r' w") simp
  qed
next
  case (Check r')
  with assms show ?thesis by (simp add: shouldSend_def)
next
  case (Mark r')
  with assms show ?thesis by (simp add: markSent_eq sentEmails_commit_EmailDoc)
qed

lemma ledgerStep_decide_done:
  "sentEmails (db w) r = Some sentDoc \<Longrightarrow>
     ledgerStep (Decide r now1 now2) w = (Decision (Inr False), w)"
  by (simp add: shouldSendWithLease_done sentDoc_sent)

lemma ledgerRun_done:
  "sentEmails (db w) r = Some sentDoc \<Longrightarrow> ledgerRun xs w = (rs, w') \<Longrightarrow>
     sentEmails (db w') r = Some sentDoc
     \<and> (\<forall>i<length xs. \<forall>now1 now2. xs ! i = Decide r now1 now2 \<longrightarrow> rs ! i = Decision (Inr False))"
proof (induction xs arbitrary: w rs w')
  case Nil
  then show ?case by simp
next
  case (Cons x xs)
  obtain r1 w1 where step: "ledgerStep x w = (r1, w1)" by (cases "ledgerStep x w")
  obtain rs1 w2 where rest: "ledgerRun xs w1 = (rs1, w2)" by (cases "ledgerRun xs w1")
  from Cons.prems(2) step rest have eqs: "rs = r1 # rs1" "w' = w2" by simp_all
  from ledgerStep_keeps_done [OF Cons.prems(1), of x] step
  have done1: "sentEmails (db w1) r = Some sentDoc" by simp
  from Cons.IH [OF done1 rest]
  have ih: "sentEmails (db w2) r = Some sentDoc"
    "\<forall>i<length xs. \<forall>now1 now2. xs ! i = Decide r now1 now2 \<longrightarrow> rs1 ! i = Decision (Inr False)"
    by simp_all
  have "\<forall>i<length (x # xs). \<forall>now1 now2.
          (x # xs) ! i = Decide r now1 now2 \<longrightarrow> rs ! i = Decision (Inr False)"
  proof (intro allI impI)
    fix i now1 now2
    assume i: "i < length (x # xs)" and op: "(x # xs) ! i = Decide r now1 now2"
    show "rs ! i = Decision (Inr False)"
    proof (cases i)
      case 0
      with op have "x = Decide r now1 now2" by simp
      with step ledgerStep_decide_done [OF Cons.prems(1), of now1 now2]
      have "r1 = Decision (Inr False)" by simp
      with 0 eqs show ?thesis by simp
    next
      case (Suc n)
      with i op have "n < length xs" "xs ! n = Decide r now1 now2" by simp_all
      with ih(2) have "rs1 ! n = Decision (Inr False)" by blast
      with Suc eqs show ?thesis by simp
    qed
  qed
  with ih(1) eqs show ?case by simp
qed

text \<open>
  C3. After \<^verbatim>\<open>markSent\<close> for an identifier, whatever sequence of
  \<^verbatim>\<open>shouldSendWithLease\<close>, \<^verbatim>\<open>shouldSend\<close> and \<^verbatim>\<open>markSent\<close> operations follows, on this
  or any other identifier and at any clock readings: every \<^verbatim>\<open>shouldSendWithLease\<close> on
  the identifier returns false, and after every prefix of the sequence the record is
  still \<^verbatim>\<open>{sent: true}\<close>, the document \<^verbatim>\<open>markSent\<close> wrote. (The code records no
  payload besides this document.)
\<close>

theorem done_is_absorbing:
  assumes "ledgerRun xs (snd (markSent emailRef w)) = (rs, w')"
  shows "sentEmails (db (snd (markSent emailRef w))) emailRef = Some sentDoc
     \<and> sentEmails (db w') emailRef = Some sentDoc
     \<and> (\<forall>i<length xs. \<forall>now1 now2.
          xs ! i = Decide emailRef now1 now2 \<longrightarrow> rs ! i = Decision (Inr False))
     \<and> (\<forall>n. sentEmails (db (snd (ledgerRun (take n xs) (snd (markSent emailRef w))))) emailRef
            = Some sentDoc)"
proof -
  have start: "sentEmails (db (snd (markSent emailRef w))) emailRef = Some sentDoc"
    by (simp add: markSent_eq sentEmails_commit_EmailDoc)
  have prefixes: "sentEmails (db (snd (ledgerRun (take n xs) (snd (markSent emailRef w))))) emailRef
            = Some sentDoc" for n
  proof -
    obtain rs0 w0 where "ledgerRun (take n xs) (snd (markSent emailRef w)) = (rs0, w0)"
      by (cases "ledgerRun (take n xs) (snd (markSent emailRef w))")
    with ledgerRun_done [OF start this] show ?thesis by simp
  qed
  from ledgerRun_done [OF start assms] start prefixes show ?thesis by simp
qed

theorem done_is_absorbing_witness:
  "ledgerRun [Decide ''e1'' 5 5, Mark ''e1'', Decide ''e2'' 7 7, Decide ''e1'' 999999 999999]
      (snd (markSent ''e1'' emptyWorld))
    = ([Decision (Inr False), Marked (Inr ()), Decision (Inr True), Decision (Inr False)],
       commit (EmailDoc ''e2'' (leaseDoc 60007))
         (commit (EmailDoc ''e1'' sentDoc) (commit (EmailDoc ''e1'' sentDoc) emptyWorld)))
   \<and> sentEmails (db (commit (EmailDoc ''e2'' (leaseDoc 60007))
         (commit (EmailDoc ''e1'' sentDoc) (commit (EmailDoc ''e1'' sentDoc) emptyWorld)))) ''e1''
       = Some sentDoc"
proof -
  have run: "ledgerRun [Decide ''e1'' 5 5, Mark ''e1'', Decide ''e2'' 7 7, Decide ''e1'' 999999 999999]
      (snd (markSent ''e1'' emptyWorld))
    = ([Decision (Inr False), Marked (Inr ()), Decision (Inr True), Decision (Inr False)],
       commit (EmailDoc ''e2'' (leaseDoc 60007))
         (commit (EmailDoc ''e1'' sentDoc) (commit (EmailDoc ''e1'' sentDoc) emptyWorld)))"
    by (simp add: shouldSendWithLease_def runTransaction_def leaseTransaction_def
        existsAndSent_def existsAndLeased_def emptyWorld_def emptyDb_def leaseDoc_def sentDoc_def
        leaseTime_def commit_def emit_def markSent_def docSet_def)
  from done_is_absorbing [OF run] run show ?thesis by simp
qed

section \<open>The email function guarded by the lease\<close>

lemma shouldSendWithLease_false_unchanged:
  "shouldSendWithLease now1 now2 r w = (Inr False, w1) \<Longrightarrow> w1 = w"
  by (auto simp: shouldSendWithLease_def runTransaction_def leaseTransaction_def Let_def
      split: if_splits)

lemma idempotentEmailFunction_parsed:
  "parseContent rt ev = Inr content \<Longrightarrow>
   idempotentEmailFunction rt e ev w =
     then_p
       (then_p (shouldSendWithLease (nowCheck e) (nowLease e) (eventId ev))
          (\<lambda>send. if send then sendAndMark content (eventId ev) else resolve ()))
       (\<lambda>_. request ''POST'' (functionsUri rt (''/flaky/'' @ eventId ev)) (Json content)
              (flakyResp e)) w"
  by (simp add: idempotentEmailFunction_def Let_def)

text \<open>
  C4, as stated, fails: with the record of \<^verbatim>\<open>e1\<close> marked sent,
  \<^verbatim>\<open>shouldSendWithLease\<close> returns false and \<^verbatim>\<open>idempotentEmailFunction\<close> still posts
  to the flaky service.
\<close>

theorem already_done_still_calls_flaky:
  "shouldSendWithLease (nowCheck demoEnv) (nowLease demoEnv) (eventId (demoEvent None))
      (emailWorld ''e1'' sentDoc) = (Inr False, emailWorld ''e1'' sentDoc)
   \<and> trace (emailWorld ''e1'' sentDoc) = []
   \<and> trace (snd (idempotentEmailFunction demoRuntime demoEnv (demoEvent None)
        (emailWorld ''e1'' sentDoc)))
      = [Request ''POST'' ''https://us-central1-demo.cloudfunctions.net/flaky/e1''
           (Json (JObj []))]"
  by (simp add: idempotentEmailFunction_def parseContent_def orElse_def demoRuntime_def
      demoEnv_def demoEvent_def emailWorld_def emptyDb_def sentDoc_def then_p_def
      shouldSendWithLease_def runTransaction_def leaseTransaction_def existsAndSent_def
      resolve_def request_def emit_def functionsUri_def Let_def)

text \<open>
  C4, amended. When \<^verbatim>\<open>shouldSendWithLease\<close> returns false for the event's identifier,
  \<^verbatim>\<open>idempotentEmailFunction\<close> logs no email and writes nothing to the database; its
  only effect is the call of the flaky service, with the identifier in the path, and
  its result is the result of that call.
\<close>

theorem already_done_skips_email_and_write:
  assumes parsed: "parseContent rt ev = Inr content"
    and decided: "shouldSendWithLease (nowCheck e) (nowLease e) (eventId ev) w = (Inr False, w1)"
  shows "idempotentEmailFunction rt e ev w =
           (case flakyResp e of None \<Rightarrow> Inl (Rejected StatusCodeError) | Some r \<Rightarrow> Inr r,
            emit (Request ''POST'' (functionsUri rt (''/flaky/'' @ eventId ev)) (Json content)) w)
         \<and> db (snd (idempotentEmailFunction rt e ev w)) = db w
         \<and> trace (snd (idempotentEmailFunction rt e ev w)) =
             trace w @ [Request ''POST'' (functionsUri rt (''/flaky/'' @ eventId ev)) (Json content)]"
proof -
  from decided have w1: "w1 = w" by (rule shouldSendWithLease_false_unchanged)
  have inner: "then_p (shouldSendWithLease (nowCheck e) (nowLease e) (eventId ev))
          (\<lambda>send. if send then sendAndMark content (eventId ev) else resolve ()) w = (Inr (), w)"
    using decided w1 by (simp add: then_p_def resolve_def)
  have "idempotentEmailFunction rt e ev w =
          request ''POST'' (functionsUri rt (''/flaky/'' @ eventId ev)) (Json content)
            (flakyResp e) w"
    using inner by (simp add: idempotentEmailFunction_parsed [OF parsed] then_p_def [of "then_p p f" for p f])
  then have eq: "idempotentEmailFunction rt e ev w =
           (case flakyResp e of None \<Rightarrow> Inl (Rejected StatusCodeError) | Some r \<Rightarrow> Inr r,
            emit (Request ''POST'' (functionsUri rt (''/flaky/'' @ eventId ev)) (Json content)) w)"
    by (simp add: request_eq)
  then show ?thesis by (simp add: db_emit trace_emit)
qed

theorem already_done_skips_email_and_write_witness:
  "parseContent demoRuntime (demoEvent None) = Inr (JObj [])
   \<and> idempotentEmailFunction demoRuntime demoEnv (demoEvent None) (emailWorld ''e1'' sentDoc) =
       (Inr ''Flaky service succeeded!'',
        emit (Request ''POST'' (functionsUri demoRuntime ''/flaky/e1'') (Json (JObj [])))
          (emailWorld ''e1'' sentDoc))"
proof -
  have parsed: "parseContent demoRuntime (demoEvent None) = Inr (JObj [])"
    by (simp add: parseContent_def orElse_def demoRuntime_def demoEvent_def)
  have decided: "shouldSendWithLease (nowCheck demoEnv) (nowLease demoEnv)
      (eventId (demoEvent None)) (emailWorld ''e1'' sentDoc) = (Inr False, emailWorld ''e1'' sentDoc)"
    by (simp add: shouldSendWithLease_done existsAndSent_def emailWorld_def emptyDb_def
        sentDoc_def demoEvent_def)
  from already_done_skips_email_and_write [OF parsed decided] parsed show ?thesis
    by (simp add: demoEnv_def demoEvent_def)
qed

text \<open>
  C8. When the record of the event's identifier is not marked sent and holds a lease
  later than the clock reading, \<^verbatim>\<open>shouldSendWithLease\<close> rejects, and
  \<^verbatim>\<open>idempotentEmailFunction\<close> returns that rejection with the world as it was: no
  email is logged, \<^verbatim>\<open>markSent\<close> is not run, the flaky service is not called and no
  document changes.
\<close>

theorem live_lease_fails_the_attempt:
  assumes parsed: "parseContent rt ev = Inr content"
    and doc: "sentEmails (db w) (eventId ev) = Some d"
    and unsent: "sent d \<noteq> Some True"
    and live: "lease d = Some l" "nowCheck e < l"
  shows "shouldSendWithLease (nowCheck e) (nowLease e) (eventId ev) w
           = (Inl (Rejected LeaseAlreadyTaken), w)
         \<and> idempotentEmailFunction rt e ev w = (Inl (Rejected LeaseAlreadyTaken), w)"
proof -
  have held: "shouldSendWithLease (nowCheck e) (nowLease e) (eventId ev) w
           = (Inl (Rejected LeaseAlreadyTaken), w)"
    using doc unsent live
    by (simp add: shouldSendWithLease_held existsAndSent_def existsAndLeased_def)
  have inner: "then_p (shouldSendWithLease (nowCheck e) (nowLease e) (eventId ev))
          (\<lambda>send. if send then sendAndMark content (eventId ev) else resolve ()) w
          = (Inl (Rejected LeaseAlreadyTaken), w)"
    using held by (simp add: then_p_def)
  have "idempotentEmailFunction rt e ev w = (Inl (Rejected LeaseAlreadyTaken), w)"
    using inner by (simp add: idempotentEmailFunction_parsed [OF parsed] then_p_def [of "then_p p f" for p f])
  with held show ?thesis by simp
qed

theorem live_lease_fails_the_attempt_witness:
  "idempotentEmailFunction demoRuntime demoEnv (demoEvent None) (emailWorld ''e1'' (leaseDoc 1001))
     = (Inl (Rejected LeaseAlreadyTaken), emailWorld ''e1'' (leaseDoc 1001))"
proof -
  have parsed: "parseContent demoRuntime (demoEvent None) = Inr (JObj [])"
    by (simp add: parseContent_def orElse_def demoRuntime_def demoEvent_def)
  have doc: "sentEmails (db (emailWorld ''e1'' (leaseDoc 1001))) (eventId (demoEvent None))
      = Some (leaseDoc 1001)"
    by (simp add: emailWorld_def emptyDb_def demoEvent_def)
  have unsent: "sent (leaseDoc 1001) \<noteq> Some True" by (simp add: leaseDoc_def)
  have live: "lease (leaseDoc 1001) = Some 1001" "nowCheck demoEnv < 1001"
    by (simp_all add: leaseDoc_def demoEnv_def)
  from live_lease_fails_the_attempt [OF parsed doc unsent live] show ?thesis by simp
qed

section \<open>The function that writes under the event identifier\<close>

lemma idempotentFirestoreFunction_parsed:
  "parseContent rt ev = Inr content \<Longrightarrow> validDocument rt content \<Longrightarrow>
   idempotentFirestoreFunction rt e ev w =
     (case flakyResp e of None \<Rightarrow> Inl (Rejected StatusCodeError) | Some r \<Rightarrow> Inr r,
      emit (Request ''POST'' (functionsUri rt (''/flaky/'' @ eventId ev)) (Json content))
        (commit (ContentDoc (eventId ev) content) w))"
  by (simp add: idempotentFirestoreFunction_def then_p_def docSet_def request_eq)

text \<open>
  C6, as stated, fails: with a document already stored under \<^verbatim>\<open>e1\<close>,
  \<^verbatim>\<open>idempotentFirestoreFunction\<close> issues the write and replaces the content.
\<close>

theorem set_overwrites_existing_content:
  "contents (db (contentWorld ''e1'' (JObj [(''value'', JNum 7)]))) ''e1''
      = Some (JObj [(''value'', JNum 7)])
   \<and> contents (db (snd (idempotentFirestoreFunction demoRuntime demoEnv (demoEvent None)
        (contentWorld ''e1'' (JObj [(''value'', JNum 7)]))))) ''e1'' = Some (JObj [])
   \<and> trace (snd (idempotentFirestoreFunction demoRuntime demoEnv (demoEvent None)
        (contentWorld ''e1'' (JObj [(''value'', JNum 7)]))))
      = [Wrote (ContentDoc ''e1'' (JObj [])),
         Request ''POST'' ''https://us-central1-demo.cloudfunctions.net/flaky/e1'' (Json (JObj []))]"
  by (simp add: idempotentFirestoreFunction_def parseContent_def orElse_def demoRuntime_def
      demoEnv_def demoEvent_def contentWorld_def emptyDb_def then_p_def docSet_def commit_def
      request_def emit_def functionsUri_def)

text \<open>
  C6, amended. For an event whose parsed content Firestore accepts as a document,
  \<^verbatim>\<open>idempotentFirestoreFunction\<close> writes the content under the event identifier with
  \<^verbatim>\<open>set\<close>, which creates or overwrites: afterwards the document of that identifier
  is the event's content, whatever was stored before, and no other document changes;
  handling the same event again leaves the database as the first handling left it.
  The call of the flaky service follows the write.
\<close>

theorem set_creates_or_overwrites:
  assumes parsed: "parseContent rt ev = Inr content" and valid: "validDocument rt content"
  shows "idempotentFirestoreFunction rt e ev w =
           (case flakyResp e of None \<Rightarrow> Inl (Rejected StatusCodeError) | Some r \<Rightarrow> Inr r,
            emit (Request ''POST'' (functionsUri rt (''/flaky/'' @ eventId ev)) (Json content))
              (commit (ContentDoc (eventId ev) content) w))
         \<and> db (snd (idempotentFirestoreFunction rt e ev w))
             = (db w)\<lparr>contents := (contents (db w))(eventId ev \<mapsto> content)\<rparr>
         \<and> db (snd (idempotentFirestoreFunction rt e' ev (snd (idempotentFirestoreFunction rt e ev w))))
             = db (snd (idempotentFirestoreFunction rt e ev w))"
  by (simp add: idempotentFirestoreFunction_parsed [OF parsed valid] db_emit
      contents_commit_ContentDoc)

theorem set_creates_or_overwrites_witness:
  "db (snd (idempotentFirestoreFunction demoRuntime demoEnv (demoEvent None)
        (contentWorld ''e1'' (JObj [(''value'', JNum 7)]))))
     = emptyDb\<lparr>contents := [''e1'' \<mapsto> JObj []]\<rparr>"
proof -
  have parsed: "parseContent demoRuntime (demoEvent None) = Inr (JObj [])"
    by (simp add: parseContent_def orElse_def demoRuntime_def demoEvent_def)
  have valid: "validDocument demoRuntime (JObj [])"
    by (simp add: demoRuntime_def)
  from set_creates_or_overwrites
    [OF parsed valid, of demoEnv "contentWorld ''e1'' (JObj [(''value'', JNum 7)])" demoEnv]
  have "db (snd (idempotentFirestoreFunction demoRuntime demoEnv (demoEvent None)
          (contentWorld ''e1'' (JObj [(''value'', JNum 7)]))))
        = (db (contentWorld ''e1'' (JObj [(''value'', JNum 7)])))
            \<lparr>contents := (contents (db (contentWorld ''e1'' (JObj [(''value'', JNum 7)]))))
               (eventId (demoEvent None) \<mapsto> JObj [])\<rparr>"
    by (rule conjunct2 [THEN conjunct1])
  then show ?thesis by (simp add: contentWorld_def demoEvent_def emptyDb_def)
qed

section \<open>The idempotent order pipeline\<close>

lemma processOrderRetryIdempotent_failed:
  "chooseCookResp e = None \<Longrightarrow>
   processOrderRetryIdempotent rt e ev w =
     (Inl (Rejected StatusCodeError), afterChooseCook rt ev w)"
  by (simp add: processOrderRetryIdempotent_def Let_def then_p_def consoleLog_def request_def
      newOrder_def afterChooseCook_def)

lemma processOrderRetryIdempotent_existing:
  "chooseCookResp e = Some res \<Longrightarrow>
   orders (db w) ''incomingRetryIdempotent'' (eventId ev) = Some ord \<Longrightarrow>
   processOrderRetryIdempotent rt e ev w =
     (case prepareMealResp e of None \<Rightarrow> Inl (Rejected StatusCodeError) | Some r \<Rightarrow> Inr r,
      emit (Request ''POST'' (functionsUri rt ''/prepareMeal/'') (IdBody (eventId ev)))
        (afterChooseCook rt ev w))"
  by (simp add: processOrderRetryIdempotent_def Let_def then_p_def consoleLog_def request_eq
      newOrder_def afterChooseCook_def runTransaction_def orderTransaction_def db_emit)

lemma processOrderRetryIdempotent_fresh:
  "chooseCookResp e = Some res \<Longrightarrow>
   orders (db w) ''incomingRetryIdempotent'' (eventId ev) = None \<Longrightarrow>
   processOrderRetryIdempotent rt e ev w =
     (case prepareMealResp e of None \<Rightarrow> Inl (Rejected StatusCodeError) | Some r \<Rightarrow> Inr r,
      emit (Request ''POST'' (functionsUri rt ''/prepareMeal/'') (IdBody (eventId ev)))
        (commit (OrderDoc ''incomingRetryIdempotent'' (eventId ev)
                   ((newOrder rt ev)\<lparr>cook := Some res\<rparr>))
           (emit (Log (AssigningCook (Some res))) (afterChooseCook rt ev w))))"
  by (simp add: processOrderRetryIdempotent_def Let_def then_p_def consoleLog_def request_eq
      newOrder_def afterChooseCook_def runTransaction_def orderTransaction_def db_emit)

text \<open>
  C5, as stated, fails: with the order of \<^verbatim>\<open>e1\<close> already stored, a further delivery
  of \<^verbatim>\<open>e1\<close> calls chooseCook again.
\<close>

theorem redelivery_calls_chooseCook_again:
  "orders (db (orderWorld ''e1'' storedOrder)) ''incomingRetryIdempotent''
      (eventId (demoEvent (Some ''cGl6emE=''))) = Some storedOrder
   \<and> trace (orderWorld ''e1'' storedOrder) = []
   \<and> trace (snd (processOrderRetryIdempotent demoRuntime demoEnv (demoEvent (Some ''cGl6emE=''))
        (orderWorld ''e1'' storedOrder)))
      = [Log (ReceivedOrder ''pizza''),
         Request ''GET'' ''https://us-central1-demo.cloudfunctions.net/chooseCook/'' NoBody,
         Request ''POST'' ''https://us-central1-demo.cloudfunctions.net/prepareMeal/''
           (IdBody ''e1'')]"
  by (simp add: processOrderRetryIdempotent_def Let_def then_p_def consoleLog_def request_def
      newOrder_def runTransaction_def orderTransaction_def emit_def orderWorld_def emptyDb_def
      demoEvent_def demoEnv_def demoRuntime_def functionsUri_def mealOf_def storedOrder_def)

text \<open>
  C5, amended. \<^verbatim>\<open>processOrderRetryIdempotent\<close> calls chooseCook on every delivery,
  before the transaction that checks for the order. On a delivery whose order is
  already stored the answer of chooseCook is discarded: the database is left as it
  was, and the function goes on to prepareMeal with the identifier, or rejects when
  chooseCook failed.
\<close>

theorem redelivery_discards_new_cook:
  assumes "orders (db w) ''incomingRetryIdempotent'' (eventId ev) = Some ord"
  shows "processOrderRetryIdempotent rt e ev w =
     (case chooseCookResp e of
        None \<Rightarrow> (Inl (Rejected StatusCodeError), afterChooseCook rt ev w)
      | Some res \<Rightarrow>
          (case prepareMealResp e of None \<Rightarrow> Inl (Rejected StatusCodeError) | Some r \<Rightarrow> Inr r,
           emit (Request ''POST'' (functionsUri rt ''/prepareMeal/'') (IdBody (eventId ev)))
             (afterChooseCook rt ev w)))
     \<and> trace (afterChooseCook rt ev w) =
         trace w @ [Log (ReceivedOrder (mealOf rt ev)),
                    Request ''GET'' (functionsUri rt ''/chooseCook/'') NoBody]
     \<and> db (snd (processOrderRetryIdempotent rt e ev w)) = db w"
proof (cases "chooseCookResp e")
  case None
  then show ?thesis
    by (simp add: processOrderRetryIdempotent_failed afterChooseCook_def db_emit trace_emit)
next
  case (Some res)
  with assms show ?thesis
    by (simp add: processOrderRetryIdempotent_existing afterChooseCook_def db_emit trace_emit)
qed

theorem redelivery_discards_new_cook_witness:
  "processOrderRetryIdempotent demoRuntime demoEnv (demoEvent (Some ''cGl6emE=''))
      (orderWorld ''e1'' storedOrder)
    = (Inr ''Cook successfully notified to prepare a meal.'',
       emit (Request ''POST'' (functionsUri demoRuntime ''/prepareMeal/'') (IdBody ''e1''))
         (afterChooseCook demoRuntime (demoEvent (Some ''cGl6emE='')) (orderWorld ''e1'' storedOrder)))
   \<and> db (snd (processOrderRetryIdempotent demoRuntime demoEnv (demoEvent (Some ''cGl6emE=''))
      (orderWorld ''e1'' storedOrder))) = db (orderWorld ''e1'' storedOrder)"
proof -
  have ex: "orders (db (orderWorld ''e1'' storedOrder)) ''incomingRetryIdempotent''
      (eventId (demoEvent (Some ''cGl6emE=''))) = Some storedOrder"
    by (simp add: orderWorld_def emptyDb_def demoEvent_def)
  from redelivery_discards_new_cook [OF ex, of demoRuntime demoEnv] show ?thesis
    by (simp add: demoEnv_def demoEvent_def db_emit afterChooseCook_def)
qed

lemma filter_isOrderWrite_emit_Log:
  "filter (isOrderWrite c i) (trace (emit (Log m) w)) = filter (isOrderWrite c i) (trace w)"
  by (simp add: trace_emit isOrderWrite_def)

lemma filter_isOrderWrite_emit_Request:
  "filter (isOrderWrite c i) (trace (emit (Request m u b) w)) = filter (isOrderWrite c i) (trace w)"
  by (simp add: trace_emit isOrderWrite_def)

lemma filter_isOrderWrite_commit_other:
  "i' \<noteq> i \<Longrightarrow>
   filter (isOrderWrite c i) (trace (commit (OrderDoc c' i' x) w)) = filter (isOrderWrite c i) (trace w)"
  by (simp add: trace_commit isOrderWrite_def)

lemma delivery_keeps_order:
  assumes "orders (db w) ''incomingRetryIdempotent'' i = Some ord"
  shows "orders (db (snd (processOrderRetryIdempotent rt e ev w))) ''incomingRetryIdempotent'' i
           = Some ord
         \<and> filter (isOrderWrite ''incomingRetryIdempotent'' i)
             (trace (snd (processOrderRetryIdempotent rt e ev w)))
           = filter (isOrderWrite ''incomingRetryIdempotent'' i) (trace w)"
proof (cases "chooseCookResp e")
  case None
  with assms show ?thesis
    by (simp add: processOrderRetryIdempotent_failed afterChooseCook_def db_emit
        filter_isOrderWrite_emit_Log filter_isOrderWrite_emit_Request)
next
  case (Some res)
  show ?thesis
  proof (cases "orders (db w) ''incomingRetryIdempotent'' (eventId ev) = None")
    case False
    then obtain ord' where "orders (db w) ''incomingRetryIdempotent'' (eventId ev) = Some ord'"
      by auto
    with Some assms show ?thesis
      by (simp add: processOrderRetryIdempotent_existing afterChooseCook_def db_emit
          filter_isOrderWrite_emit_Log filter_isOrderWrite_emit_Request)
  next
    case True
    with assms have "eventId ev \<noteq> i" by auto
    with True Some assms show ?thesis
      by (simp add: processOrderRetryIdempotent_fresh afterChooseCook_def db_emit
          orders_commit_OrderDoc filter_isOrderWrite_commit_other
          filter_isOrderWrite_emit_Log filter_isOrderWrite_emit_Request)
  qed
qed

lemma delivery_writes_once:
  assumes "orders (db w) ''incomingRetryIdempotent'' i = None"
  shows "(orders (db (snd (processOrderRetryIdempotent rt e ev w))) ''incomingRetryIdempotent'' i = None
          \<and> filter (isOrderWrite ''incomingRetryIdempotent'' i)
               (trace (snd (processOrderRetryIdempotent rt e ev w)))
             = filter (isOrderWrite ''incomingRetryIdempotent'' i) (trace w))
       \<or> (orders (db (snd (processOrderRetryIdempotent rt e ev w))) ''incomingRetryIdempotent'' i \<noteq> None
          \<and> length (filter (isOrderWrite ''incomingRetryIdempotent'' i)
               (trace (snd (processOrderRetryIdempotent rt e ev w))))
             = Suc (length (filter (isOrderWrite ''incomingRetryIdempotent'' i) (trace w))))"
proof (cases "chooseCookResp e")
  case None
  with assms show ?thesis
    by (simp add: processOrderRetryIdempotent_failed afterChooseCook_def db_emit
        filter_isOrderWrite_emit_Log filter_isOrderWrite_emit_Request)
next
  case (Some res)
  show ?thesis
  proof (cases "orders (db w) ''incomingRetryIdempotent'' (eventId ev)")
    case (Some ord')
    with \<open>chooseCookResp e = Some res\<close> assms show ?thesis
      by (simp add: processOrderRetryIdempotent_existing afterChooseCook_def db_emit
          filter_isOrderWrite_emit_Log filter_isOrderWrite_emit_Request)
  next
    case None
    show ?thesis
    proof (cases "eventId ev = i")
      case True
      with None \<open>chooseCookResp e = Some res\<close> show ?thesis
        by (simp add: processOrderRetryIdempotent_fresh afterChooseCook_def db_emit
            orders_commit_OrderDoc trace_emit trace_commit isOrderWrite_def)
    next
      case False
      with None \<open>chooseCookResp e = Some res\<close> assms show ?thesis
        by (simp add: processOrderRetryIdempotent_fresh afterChooseCook_def db_emit
            orders_commit_OrderDoc filter_isOrderWrite_commit_other
            filter_isOrderWrite_emit_Log filter_isOrderWrite_emit_Request)
    qed
  qed
qed

lemma deliveries_keep_order:
  "orders (db w) ''incomingRetryIdempotent'' i = Some ord \<Longrightarrow>
   orders (db (deliveries rt xs w)) ''incomingRetryIdempotent'' i = Some ord
   \<and> filter (isOrderWrite ''incomingRetryIdempotent'' i) (trace (deliveries rt xs w))
       = filter (isOrderWrite ''incomingRetryIdempotent'' i) (trace w)"
proof (induction xs arbitrary: w)
  case Nil
  then show ?case by simp
next
  case (Cons x xs)
  obtain e ev where x: "x = (e, ev)" by (cases x)
  from delivery_keeps_order [OF Cons.prems, of rt e ev]
  have step: "orders (db (snd (processOrderRetryIdempotent rt e ev w))) ''incomingRetryIdempotent'' i
           = Some ord"
    "filter (isOrderWrite ''incomingRetryIdempotent'' i)
             (trace (snd (processOrderRetryIdempotent rt e ev w)))
           = filter (isOrderWrite ''incomingRetryIdempotent'' i) (trace w)"
    by simp_all
  from Cons.IH [OF step(1)] step(2) x show ?case by simp
qed

lemma deliveries_write_at_most_once:
  "length (filter (isOrderWrite ''incomingRetryIdempotent'' i) (trace (deliveries rt xs w)))
     \<le> Suc (length (filter (isOrderWrite ''incomingRetryIdempotent'' i) (trace w)))"
proof (induction xs arbitrary: w)
  case Nil
  then show ?case by simp
next
  case (Cons x xs)
  obtain e ev where x: "x = (e, ev)" by (cases x)
  let ?w1 = "snd (processOrderRetryIdempotent rt e ev w)"
  let ?n = "\<lambda>w. length (filter (isOrderWrite ''incomingRetryIdempotent'' i) (trace w))"
  show ?case
  proof (cases "orders (db w) ''incomingRetryIdempotent'' i")
    case (Some ord)
    from deliveries_keep_order [OF Some, of rt "x # xs"] show ?thesis by simp
  next
    case None
    from delivery_writes_once [OF None, of rt e ev]
    consider (absent) "orders (db ?w1) ''incomingRetryIdempotent'' i = None" "?n ?w1 = ?n w"
      | (written) ord where "orders (db ?w1) ''incomingRetryIdempotent'' i = Some ord"
          "?n ?w1 = Suc (?n w)"
      by auto
    then show ?thesis
    proof cases
      case absent
      with Cons.IH [of ?w1] x show ?thesis by simp
    next
      case written
      from deliveries_keep_order [OF written(1), of rt xs] written(2) x show ?thesis by simp
    qed
  qed
qed

text \<open>
  C9. Once an order is stored under an identifier in \<^verbatim>\<open>incomingRetryIdempotent\<close>, any
  sequence of deliveries handled by \<^verbatim>\<open>processOrderRetryIdempotent\<close> (of this or of
  other events) leaves that order as it is, cook, timestamp and meal included, and
  issues no write to that document. From any database, a sequence of deliveries
  issues at most one write to the order document of an identifier.
\<close>

theorem order_record_never_overwritten:
  "(orders (db w) ''incomingRetryIdempotent'' i = Some ord \<longrightarrow>
      orders (db (deliveries rt xs w)) ''incomingRetryIdempotent'' i = Some ord
      \<and> filter (isOrderWrite ''incomingRetryIdempotent'' i) (trace (deliveries rt xs w))
          = filter (isOrderWrite ''incomingRetryIdempotent'' i) (trace w))
   \<and> length (filter (isOrderWrite ''incomingRetryIdempotent'' i) (trace (deliveries rt xs w)))
       \<le> Suc (length (filter (isOrderWrite ''incomingRetryIdempotent'' i) (trace w)))"
  using deliveries_keep_order [of w i ord rt xs] deliveries_write_at_most_once [of i rt xs w]
  by blast

theorem order_record_never_overwritten_witness:
  "orders (db (deliveries demoRuntime
       [(demoEnv, demoEvent (Some ''cGl6emE='')), (demoEnv, demoEvent None)]
       (orderWorld ''e1'' storedOrder))) ''incomingRetryIdempotent'' ''e1'' = Some storedOrder
   \<and> filter (isOrderWrite ''incomingRetryIdempotent'' ''e1'')
        (trace (deliveries demoRuntime
          [(demoEnv, demoEvent (Some ''cGl6emE='')), (demoEnv, demoEvent None)]
          (orderWorld ''e1'' storedOrder))) = []"
proof -
  have ex: "orders (db (orderWorld ''e1'' storedOrder)) ''incomingRetryIdempotent'' ''e1''
      = Some storedOrder"
    by (simp add: orderWorld_def emptyDb_def)
  from order_record_never_overwritten [of "orderWorld ''e1'' storedOrder" "''e1''" storedOrder
      demoRuntime "[(demoEnv, demoEvent (Some ''cGl6emE='')), (demoEnv, demoEvent None)]"] ex
  show ?thesis by (simp add: orderWorld_def)
qed

section \<open>Missing and empty message bodies\<close>

lemma parseContent_empty:
  assumes "base64ToString rt [] = []" and "jsonParse rt ''{}'' = Some (JObj [])"
    and "emptyBody rt ev"
  shows "parseContent rt ev = Inr (JObj [])"
  using assms
  by (auto simp: parseContent_def emptyBody_def orElse_def split: option.splits)

lemma mealOf_empty: "emptyBody rt ev \<Longrightarrow> mealOf rt ev = []"
  by (auto simp: mealOf_def emptyBody_def split: option.splits)

lemma nonIdempotentFirestoreFunction_parsed:
  "parseContent rt ev = Inr content \<Longrightarrow> validDocument rt content \<Longrightarrow>
   nonIdempotentFirestoreFunction rt e ev w =
     then_p (docAdd (ContentDoc (autoId e) content))
       (\<lambda>_. request ''POST'' (functionsUri rt ''/flaky'') (Json content) (flakyResp e)) w"
  by (simp add: nonIdempotentFirestoreFunction_def)

lemma idempotentFirestoreFunction_chain:
  "parseContent rt ev = Inr content \<Longrightarrow> validDocument rt content \<Longrightarrow>
   idempotentFirestoreFunction rt e ev w =
     then_p (docSet (ContentDoc (eventId ev) content))
       (\<lambda>_. request ''POST'' (functionsUri rt (''/flaky/'' @ eventId ev)) (Json content)
              (flakyResp e)) w"
  by (simp add: idempotentFirestoreFunction_def)

lemma nonIdempotentEmailFunction_empty:
  "parseContent rt ev = Inr (JObj []) \<Longrightarrow>
   nonIdempotentEmailFunction rt e ev w =
     then_p (consoleLog (SendingEmail None))
       (\<lambda>_. request ''POST'' (functionsUri rt ''/flaky'') (Json (JObj [])) (flakyResp e)) w"
  by (simp add: nonIdempotentEmailFunction_def)

lemma almostIdempotentEmailFunction_parsed:
  "parseContent rt ev = Inr content \<Longrightarrow>
   almostIdempotentEmailFunction rt e ev w =
     then_p
       (then_p (shouldSend (eventId ev))
          (\<lambda>send. if send then sendAndMark content (eventId ev) else resolve ()))
       (\<lambda>_. request ''POST'' (functionsUri rt (''/flaky/'' @ eventId ev)) (Json content)
              (flakyResp e)) w"
  by (simp add: almostIdempotentEmailFunction_def Let_def)

lemma pubSubFunction_parsed:
  "parseContent rt ev = Inr content \<Longrightarrow>
   pubSubFunction rt e ev w =
     request ''POST'' (functionsUri rt ''/flaky'') (Json content) (flakyResp e) w"
  by (simp add: pubSubFunction_def)

lemma nonIdempotentProcessOrder_no_throw: "\<not> throws (nonIdempotentProcessOrder rt e c ev w)"
  unfolding nonIdempotentProcessOrder_def Let_def
  by (intro then_p_no_throw consoleLog_no_throw request_no_throw docAdd_no_throw resolve_no_throw)

lemma processOrderRetryIdempotent_no_throw: "\<not> throws (processOrderRetryIdempotent rt e ev w)"
  unfolding processOrderRetryIdempotent_def Let_def
  by (intro then_p_no_throw consoleLog_no_throw request_no_throw runTransaction_no_throw)

lemma email_step_no_throw:
  "\<not> throws ((if send then sendAndMark content r else resolve ()) w)"
  by (simp add: sendAndMark_no_throw resolve_no_throw)

lemma almostIdempotentEmailFunction_empty:
  assumes parsed: "parseContent rt ev = Inr (JObj [])"
  shows "almostIdempotentEmailFunction rt e ev w =
           request ''POST'' (functionsUri rt (''/flaky/'' @ eventId ev)) (Json (JObj []))
             (flakyResp e)
             (let marked = commit (EmailDoc (eventId ev) \<lparr>sent = Some True, lease = None\<rparr>)
                             (emit (Log (SendingEmail None)) w)
              in case sentEmails (db w) (eventId ev) of
                   None \<Rightarrow> marked
                 | Some d \<Rightarrow> if sent d = Some True then w else marked)"
  by (simp add: almostIdempotentEmailFunction_parsed [OF parsed] then_p_def shouldSend_def
      existsAndSent_def sendAndMark_def consoleLog_def markSent_def docSet_def resolve_def
      sentDoc_def Let_def split: option.splits)

lemma idempotentEmailFunction_empty:
  assumes parsed: "parseContent rt ev = Inr (JObj [])"
  shows "idempotentEmailFunction rt e ev w =
           (let sendIt =
                  request ''POST'' (functionsUri rt (''/flaky/'' @ eventId ev)) (Json (JObj []))
                    (flakyResp e)
                    (commit (EmailDoc (eventId ev) \<lparr>sent = Some True, lease = None\<rparr>)
                       (emit (Log (SendingEmail None))
                          (commit (EmailDoc (eventId ev)
                                     \<lparr>sent = None, lease = Some (nowLease e + leaseTime)\<rparr>) w)))
            in case sentEmails (db w) (eventId ev) of
                 None \<Rightarrow> sendIt
               | Some d \<Rightarrow>
                   if sent d = Some True then
                     request ''POST'' (functionsUri rt (''/flaky/'' @ eventId ev)) (Json (JObj []))
                       (flakyResp e) w
                   else (case lease d of
                           None \<Rightarrow> sendIt
                         | Some l \<Rightarrow>
                             if nowCheck e < l then (Inl (Rejected LeaseAlreadyTaken), w)
                             else sendIt))"
  by (simp add: idempotentEmailFunction_parsed [OF parsed] then_p_def shouldSendWithLease_def
      runTransaction_def leaseTransaction_def existsAndLeased_def
      existsAndSent_def sendAndMark_def consoleLog_def markSent_def docSet_def resolve_def
      sentDoc_def leaseDoc_def Let_def split: option.splits)

lemma nonIdempotentProcessOrder_empty:
  assumes meal: "mealOf rt ev = []"
  shows "nonIdempotentProcessOrder rt e c ev w =
           (let asked = emit (Request ''GET'' (functionsUri rt ''/chooseCook/'') NoBody)
                          (emit (Log (ReceivedOrder [])) w)
            in case chooseCookResp e of
                 None \<Rightarrow> (Inl (Rejected StatusCodeError), asked)
               | Some chosen \<Rightarrow>
                   (let ord = \<lparr>orderId = eventId ev, orderTimestamp = timestamp ev, meal = [],
                               cook = Some chosen\<rparr>;
                        assigned = emit (Log (AssigningCook (Some chosen))) asked
                    in if orders (db w) c (autoId e) \<noteq> None
                       then (Inl (Rejected AlreadyExists), assigned)
                       else request ''POST'' (functionsUri rt ''/prepareMeal/'') (OrderBody ord)
                              (prepareMealResp e)
                              (commit (OrderDoc c (autoId e) ord) assigned)))"
  by (simp add: nonIdempotentProcessOrder_def newOrder_def meal then_p_def consoleLog_def
      request_def docAdd_def resolve_def db_emit Let_def split: option.splits)

lemma processOrderRetryIdempotent_empty:
  assumes meal: "mealOf rt ev = []"
  shows "processOrderRetryIdempotent rt e ev w =
           (let asked = emit (Request ''GET'' (functionsUri rt ''/chooseCook/'') NoBody)
                          (emit (Log (ReceivedOrder [])) w)
            in case chooseCookResp e of
                 None \<Rightarrow> (Inl (Rejected StatusCodeError), asked)
               | Some chosen \<Rightarrow>
                   request ''POST'' (functionsUri rt ''/prepareMeal/'') (IdBody (eventId ev))
                     (prepareMealResp e)
                     (if orders (db w) ''incomingRetryIdempotent'' (eventId ev) = None
                      then commit (OrderDoc ''incomingRetryIdempotent'' (eventId ev)
                                     \<lparr>orderId = eventId ev, orderTimestamp = timestamp ev,
                                        meal = [], cook = Some chosen\<rparr>)
                             (emit (Log (AssigningCook (Some chosen))) asked)
                      else asked))"
  by (auto simp: processOrderRetryIdempotent_def newOrder_def meal then_p_def consoleLog_def
      request_def runTransaction_def orderTransaction_def db_emit Let_def split: option.splits)

text \<open>
  C10. Given libraries whose base64 decoding maps the empty string to the empty string,
  whose \<^verbatim>\<open>JSON.parse\<close> maps the text \<^verbatim>\<open>{}\<close> to the empty object, and whose
  Firestore accepts the empty object as a document: when the
  message body is missing or decodes to the empty string, the parsed content is the
  empty object and the meal of the order is the empty string; no function triggered by
  Pub/Sub throws; and each of the nine functions goes on with those values, its result
  and its effects being the ones written out below: the document added or set and the
  body posted to the flaky service are the empty object, the logged email text is
  undefined, the two email functions that consult \<^verbatim>\<open>sentEmails\<close> log the email, mark
  it sent and call the flaky service (or skip the email when it is marked sent, or
  reject on a live lease), and the three order functions log the empty meal, call
  chooseCook, store the order with the empty meal and call prepareMeal.
\<close>

theorem empty_body_is_tolerated:
  assumes lib: "base64ToString rt [] = []" "jsonParse rt ''{}'' = Some (JObj [])"
    and valid: "validDocument rt (JObj [])"
    and body: "emptyBody rt ev"
  shows "(parseContent rt ev = Inr (JObj []))
       \<and> (mealOf rt ev = [])
       \<and> (newOrder rt ev =
           \<lparr>orderId = eventId ev, orderTimestamp = timestamp ev, meal = [], cook = None\<rparr>)
       \<and> (pubSubFunction rt e ev w =
           request ''POST'' (functionsUri rt ''/flaky'') (Json (JObj [])) (flakyResp e) w)
       \<and> (nonIdempotentFirestoreFunction rt e ev w =
           then_p (docAdd (ContentDoc (autoId e) (JObj [])))
             (\<lambda>_. request ''POST'' (functionsUri rt ''/flaky'') (Json (JObj [])) (flakyResp e)) w)
       \<and> (idempotentFirestoreFunction rt e ev w =
           then_p (docSet (ContentDoc (eventId ev) (JObj [])))
             (\<lambda>_. request ''POST'' (functionsUri rt (''/flaky/'' @ eventId ev)) (Json (JObj []))
                    (flakyResp e)) w)
       \<and> (nonIdempotentEmailFunction rt e ev w =
           then_p (consoleLog (SendingEmail None))
             (\<lambda>_. request ''POST'' (functionsUri rt ''/flaky'') (Json (JObj [])) (flakyResp e)) w)
       \<and> (\<not> throws (pubSubFunction rt e ev w))
       \<and> (\<not> throws (nonIdempotentFirestoreFunction rt e ev w))
       \<and> (\<not> throws (idempotentFirestoreFunction rt e ev w))
       \<and> (\<not> throws (nonIdempotentEmailFunction rt e ev w))
       \<and> (\<not> throws (almostIdempotentEmailFunction rt e ev w))
       \<and> (\<not> throws (idempotentEmailFunction rt e ev w))
       \<and> (\<not> throws (processOrder rt e ev w))
       \<and> (\<not> throws (processOrderRetry rt e ev w))
       \<and> (\<not> throws (processOrderRetryIdempotent rt e ev w))
       \<and> (almostIdempotentEmailFunction rt e ev w =
           request ''POST'' (functionsUri rt (''/flaky/'' @ eventId ev)) (Json (JObj []))
             (flakyResp e)
             (let marked = commit (EmailDoc (eventId ev) \<lparr>sent = Some True, lease = None\<rparr>)
                             (emit (Log (SendingEmail None)) w)
              in case sentEmails (db w) (eventId ev) of
                   None \<Rightarrow> marked
                 | Some d \<Rightarrow> if sent d = Some True then w else marked))
       \<and> (idempotentEmailFunction rt e ev w =
           (let sendIt =
                  request ''POST'' (functionsUri rt (''/flaky/'' @ eventId ev)) (Json (JObj []))
                    (flakyResp e)
                    (commit (EmailDoc (eventId ev) \<lparr>sent = Some True, lease = None\<rparr>)
                       (emit (Log (SendingEmail None))
                          (commit (EmailDoc (eventId ev)
                                     \<lparr>sent = None, lease = Some (nowLease e + leaseTime)\<rparr>) w)))
            in case sentEmails (db w) (eventId ev) of
                 None \<Rightarrow> sendIt
               | Some d \<Rightarrow>
                   if sent d = Some True then
                     request ''POST'' (functionsUri rt (''/flaky/'' @ eventId ev)) (Json (JObj []))
                       (flakyResp e) w
                   else (case lease d of
                           None \<Rightarrow> sendIt
                         | Some l \<Rightarrow>
                             if nowCheck e < l then (Inl (Rejected LeaseAlreadyTaken), w)
                             else sendIt)))
       \<and> (processOrder rt e ev w =
           (let asked = emit (Request ''GET'' (functionsUri rt ''/chooseCook/'') NoBody)
                          (emit (Log (ReceivedOrder [])) w)
            in case chooseCookResp e of
                 None \<Rightarrow> (Inl (Rejected StatusCodeError), asked)
               | Some chosen \<Rightarrow>
                   (let ord = \<lparr>orderId = eventId ev, orderTimestamp = timestamp ev, meal = [],
                               cook = Some chosen\<rparr>;
                        assigned = emit (Log (AssigningCook (Some chosen))) asked
                    in if orders (db w) ''incoming'' (autoId e) \<noteq> None
                       then (Inl (Rejected AlreadyExists), assigned)
                       else request ''POST'' (functionsUri rt ''/prepareMeal/'') (OrderBody ord)
                              (prepareMealResp e)
                              (commit (OrderDoc ''incoming'' (autoId e) ord) assigned))))
       \<and> (processOrderRetry rt e ev w =
           (let asked = emit (Request ''GET'' (functionsUri rt ''/chooseCook/'') NoBody)
                          (emit (Log (ReceivedOrder [])) w)
            in case chooseCookResp e of
                 None \<Rightarrow> (Inl (Rejected StatusCodeError), asked)
               | Some chosen \<Rightarrow>
                   (let ord = \<lparr>orderId = eventId ev, orderTimestamp = timestamp ev, meal = [],
                               cook = Some chosen\<rparr>;
                        assigned = emit (Log (AssigningCook (Some chosen))) asked
                    in if orders (db w) ''incomingRetry'' (autoId e) \<noteq> None
                       then (Inl (Rejected AlreadyExists), assigned)
                       else request ''POST'' (functionsUri rt ''/prepareMeal/'') (OrderBody ord)
                              (prepareMealResp e)
                              (commit (OrderDoc ''incomingRetry'' (autoId e) ord) assigned))))
       \<and> (processOrderRetryIdempotent rt e ev w =
           (let asked = emit (Request ''GET'' (functionsUri rt ''/chooseCook/'') NoBody)
                          (emit (Log (ReceivedOrder [])) w)
            in case chooseCookResp e of
                 None \<Rightarrow> (Inl (Rejected StatusCodeError), asked)
               | Some chosen \<Rightarrow>
                   request ''POST'' (functionsUri rt ''/prepareMeal/'') (IdBody (eventId ev))
                     (prepareMealResp e)
                     (if orders (db w) ''incomingRetryIdempotent'' (eventId ev) = None
                      then commit (OrderDoc ''incomingRetryIdempotent'' (eventId ev)
                                     \<lparr>orderId = eventId ev, orderTimestamp = timestamp ev,
                                        meal = [], cook = Some chosen\<rparr>)
                             (emit (Log (AssigningCook (Some chosen))) asked)
                      else asked)))"
proof -
  have parsed: "parseContent rt ev = Inr (JObj [])"
    by (rule parseContent_empty [OF lib body])
  have meal: "mealOf rt ev = []"
    by (rule mealOf_empty [OF body])
  show ?thesis
  proof (intro conjI)
    show "parseContent rt ev = Inr (JObj [])"
      by (rule parseContent_empty [OF lib body])
  next
    show "mealOf rt ev = []"
      by (rule mealOf_empty [OF body])
  next
    show "newOrder rt ev =
           \<lparr>orderId = eventId ev, orderTimestamp = timestamp ev, meal = [], cook = None\<rparr>"
      by (simp add: newOrder_def mealOf_empty [OF body])
  next
    show "pubSubFunction rt e ev w =
           request ''POST'' (functionsUri rt ''/flaky'') (Json (JObj [])) (flakyResp e) w"
      by (rule pubSubFunction_parsed [OF parsed])
  next
    show "nonIdempotentFirestoreFunction rt e ev w =
           then_p (docAdd (ContentDoc (autoId e) (JObj [])))
             (\<lambda>_. request ''POST'' (functionsUri rt ''/flaky'') (Json (JObj [])) (flakyResp e)) w"
      by (rule nonIdempotentFirestoreFunction_parsed [OF parsed valid])
  next
    show "idempotentFirestoreFunction rt e ev w =
           then_p (docSet (ContentDoc (eventId ev) (JObj [])))
             (\<lambda>_. request ''POST'' (functionsUri rt (''/flaky/'' @ eventId ev)) (Json (JObj []))
                    (flakyResp e)) w"
      by (rule idempotentFirestoreFunction_chain [OF parsed valid])
  next
    show "nonIdempotentEmailFunction rt e ev w =
           then_p (consoleLog (SendingEmail None))
             (\<lambda>_. request ''POST'' (functionsUri rt ''/flaky'') (Json (JObj [])) (flakyResp e)) w"
      by (rule nonIdempotentEmailFunction_empty [OF parsed])
  next
    show "\<not> throws (pubSubFunction rt e ev w)"
      by (simp add: pubSubFunction_parsed [OF parsed] request_no_throw)
  next
    show "\<not> throws (nonIdempotentFirestoreFunction rt e ev w)"
      unfolding nonIdempotentFirestoreFunction_parsed [OF parsed valid]
      by (intro then_p_no_throw docAdd_no_throw request_no_throw)
  next
    show "\<not> throws (idempotentFirestoreFunction rt e ev w)"
      unfolding idempotentFirestoreFunction_chain [OF parsed valid]
      by (intro then_p_no_throw docSet_no_throw request_no_throw)
  next
    show "\<not> throws (nonIdempotentEmailFunction rt e ev w)"
      unfolding nonIdempotentEmailFunction_empty [OF parsed]
      by (intro then_p_no_throw consoleLog_no_throw request_no_throw)
  next
    show "\<not> throws (almostIdempotentEmailFunction rt e ev w)"
      unfolding almostIdempotentEmailFunction_parsed [OF parsed]
      by (intro then_p_no_throw shouldSend_no_throw email_step_no_throw request_no_throw)
  next
    show "\<not> throws (idempotentEmailFunction rt e ev w)"
      unfolding idempotentEmailFunction_parsed [OF parsed] shouldSendWithLease_def
      by (intro then_p_no_throw runTransaction_no_throw email_step_no_throw request_no_throw)
  next
    show "\<not> throws (processOrder rt e ev w)"
      by (simp add: processOrder_def nonIdempotentProcessOrder_no_throw)
  next
    show "\<not> throws (processOrderRetry rt e ev w)"
      by (simp add: processOrderRetry_def nonIdempotentProcessOrder_no_throw)
  next
    show "\<not> throws (processOrderRetryIdempotent rt e ev w)"
      by (rule processOrderRetryIdempotent_no_throw)
  next
    show "almostIdempotentEmailFunction rt e ev w =
           request ''POST'' (functionsUri rt (''/flaky/'' @ eventId ev)) (Json (JObj []))
             (flakyResp e)
             (let marked = commit (EmailDoc (eventId ev) \<lparr>sent = Some True, lease = None\<rparr>)
                             (emit (Log (SendingEmail None)) w)
              in case sentEmails (db w) (eventId ev) of
                   None \<Rightarrow> marked
                 | Some d \<Rightarrow> if sent d = Some True then w else marked)"
      by (rule almostIdempotentEmailFunction_empty [OF parsed])
  next
    show "idempotentEmailFunction rt e ev w =
           (let sendIt =
                  request ''POST'' (functionsUri rt (''/flaky/'' @ eventId ev)) (Json (JObj []))
                    (flakyResp e)
                    (commit (EmailDoc (eventId ev) \<lparr>sent = Some True, lease = None\<rparr>)
                       (emit (Log (SendingEmail None))
                          (commit (EmailDoc (eventId ev)
                                     \<lparr>sent = None, lease = Some (nowLease e + leaseTime)\<rparr>) w)))
            in case sentEmails (db w) (eventId ev) of
                 None \<Rightarrow> sendIt
               | Some d \<Rightarrow>
                   if sent d = Some True then
                     request ''POST'' (functionsUri rt (''/flaky/'' @ eventId ev)) (Json (JObj []))
                       (flakyResp e) w
                   else (case lease d of
                           None \<Rightarrow> sendIt
                         | Some l \<Rightarrow>
                             if nowCheck e < l then (Inl (Rejected LeaseAlreadyTaken), w)
                             else sendIt))"
      by (rule idempotentEmailFunction_empty [OF parsed])
  next
    show "processOrder rt e ev w =
           (let asked = emit (Request ''GET'' (functionsUri rt ''/chooseCook/'') NoBody)
                          (emit (Log (ReceivedOrder [])) w)
            in case chooseCookResp e of
                 None \<Rightarrow> (Inl (Rejected StatusCodeError), asked)
               | Some chosen \<Rightarrow>
                   (let ord = \<lparr>orderId = eventId ev, orderTimestamp = timestamp ev, meal = [],
                               cook = Some chosen\<rparr>;
                        assigned = emit (Log (AssigningCook (Some chosen))) asked
                    in if orders (db w) ''incoming'' (autoId e) \<noteq> None
                       then (Inl (Rejected AlreadyExists), assigned)
                       else request ''POST'' (functionsUri rt ''/prepareMeal/'') (OrderBody ord)
                              (prepareMealResp e)
                              (commit (OrderDoc ''incoming'' (autoId e) ord) assigned)))"
      unfolding processOrder_def by (rule nonIdempotentProcessOrder_empty [OF meal])
  next
    show "processOrderRetry rt e ev w =
           (let asked = emit (Request ''GET'' (functionsUri rt ''/chooseCook/'') NoBody)
                          (emit (Log (ReceivedOrder [])) w)
            in case chooseCookResp e of
                 None \<Rightarrow> (Inl (Rejected StatusCodeError), asked)
               | Some chosen \<Rightarrow>
                   (let ord = \<lparr>orderId = eventId ev, orderTimestamp = timestamp ev, meal = [],
                               cook = Some chosen\<rparr>;
                        assigned = emit (Log (AssigningCook (Some chosen))) asked
                    in if orders (db w) ''incomingRetry'' (autoId e) \<noteq> None
                       then (Inl (Rejected AlreadyExists), assigned)
                       else request ''POST'' (functionsUri rt ''/prepareMeal/'') (OrderBody ord)
                              (prepareMealResp e)
                              (commit (OrderDoc ''incomingRetry'' (autoId e) ord) assigned)))"
      unfolding processOrderRetry_def by (rule nonIdempotentProcessOrder_empty [OF meal])
  next
    show "processOrderRetryIdempotent rt e ev w =
           (let asked = emit (Request ''GET'' (functionsUri rt ''/chooseCook/'') NoBody)
                          (emit (Log (ReceivedOrder [])) w)
            in case chooseCookResp e of
                 None \<Rightarrow> (Inl (Rejected StatusCodeError), asked)
               | Some chosen \<Rightarrow>
                   request ''POST'' (functionsUri rt ''/prepareMeal/'') (IdBody (eventId ev))
                     (prepareMealResp e)
                     (if orders (db w) ''incomingRetryIdempotent'' (eventId ev) = None
                      then commit (OrderDoc ''incomingRetryIdempotent'' (eventId ev)
                                     \<lparr>orderId = eventId ev, orderTimestamp = timestamp ev,
                                        meal = [], cook = Some chosen\<rparr>)
                             (emit (Log (AssigningCook (Some chosen))) asked)
                      else asked))"
      by (rule processOrderRetryIdempotent_empty [OF meal])
  qed
qed

theorem empty_body_is_tolerated_witness:
  "emptyBody demoRuntime (demoEvent None)
   \<and> parseContent demoRuntime (demoEvent None) = Inr (JObj [])
   \<and> mealOf demoRuntime (demoEvent None) = []
   \<and> \<not> throws (idempotentEmailFunction demoRuntime demoEnv (demoEvent None) emptyWorld)
   \<and> idempotentEmailFunction demoRuntime demoEnv (demoEvent None) emptyWorld =
       (Inr ''Flaky service succeeded!'',
        \<lparr>db = emptyDb\<lparr>sentEmails := [''e1'' \<mapsto> sentDoc]\<rparr>,
         trace = [Wrote (EmailDoc ''e1'' (leaseDoc 61000)),
                  Log (SendingEmail None),
                  Wrote (EmailDoc ''e1'' sentDoc),
                  Request ''POST'' ''https://us-central1-demo.cloudfunctions.net/flaky/e1''
                    (Json (JObj []))]\<rparr>)
   \<and> \<not> throws (processOrderRetryIdempotent demoRuntime demoEnv (demoEvent None) emptyWorld)
   \<and> trace (snd (processOrderRetryIdempotent demoRuntime demoEnv (demoEvent None) emptyWorld)) =
       [Log (ReceivedOrder []),
        Request ''GET'' ''https://us-central1-demo.cloudfunctions.net/chooseCook/'' NoBody,
        Log (AssigningCook (Some ''Linda'')),
        Wrote (OrderDoc ''incomingRetryIdempotent'' ''e1''
                 \<lparr>orderId = ''e1'', orderTimestamp = ''2018-06-01T12:00:00Z'', meal = [],
                    cook = Some ''Linda''\<rparr>),
        Request ''POST'' ''https://us-central1-demo.cloudfunctions.net/prepareMeal/''
          (IdBody ''e1'')]
   \<and> orders (db (snd (processOrder demoRuntime demoEnv (demoEvent None) emptyWorld)))
         ''incoming'' ''auto1''
       = Some \<lparr>orderId = ''e1'', orderTimestamp = ''2018-06-01T12:00:00Z'', meal = [],
                cook = Some ''Linda''\<rparr>"
proof -
  have lib: "base64ToString demoRuntime [] = []"
    "jsonParse demoRuntime ''{}'' = Some (JObj [])"
    by (simp_all add: demoRuntime_def)
  have valid: "validDocument demoRuntime (JObj [])"
    by (simp add: demoRuntime_def)
  have body: "emptyBody demoRuntime (demoEvent None)"
    by (simp add: emptyBody_def demoEvent_def)
  from empty_body_is_tolerated [OF lib valid body, of demoEnv emptyWorld] body
  show ?thesis
    by (simp add: demoEnv_def demoEvent_def emptyWorld_def emptyDb_def demoRuntime_def
        request_def commit_def emit_def functionsUri_def sentDoc_def leaseDoc_def leaseTime_def
        throws_def Let_def)
qed

lemma undecodable_body_example:
  "emptyBody demoRuntime (demoEvent (Some ''====''))
   \<and> parseContent demoRuntime (demoEvent (Some ''===='')) = Inr (JObj [])"
  by (simp add: emptyBody_def parseContent_def orElse_def demoRuntime_def demoEvent_def)

end
